theory Spec2Isabelle
  imports Main "HOL-Library.Sublist"
begin

section \<open>JavaScript strings\<close>

text \<open>
  Strings are lists of characters with code points below 256. \<open>toLowerCase\<close> maps the
  upper-case letters of that range (A-Z, and the Latin-1 capitals other than the
  multiplication sign) to their lower-case forms; \<open>trim\<close> strips the white space and
  line terminators of that range from both ends.
\<close>

definition toLowerCase_char :: "char \<Rightarrow> char" where
  "toLowerCase_char c =
     (let n = (of_char c :: nat)
      in if (65 \<le> n \<and> n \<le> 90) \<or> (192 \<le> n \<and> n \<le> 222 \<and> n \<noteq> 215)
         then char_of (n + 32) else c)"

definition toLowerCase :: "string \<Rightarrow> string" where
  "toLowerCase s = map toLowerCase_char s"

definition is_js_space :: "char \<Rightarrow> bool" where
  "is_js_space c = ((of_char c :: nat) \<in> {9, 10, 11, 12, 13, 32, 160})"

definition trim :: "string \<Rightarrow> string" where
  "trim s = rev (dropWhile is_js_space (rev (dropWhile is_js_space s)))"

fun startsWith :: "string \<Rightarrow> string \<Rightarrow> bool" where
  "startsWith s [] = True"
| "startsWith [] (p # ps) = False"
| "startsWith (c # cs) (p # ps) = (c = p \<and> startsWith cs ps)"

fun str_includes :: "string \<Rightarrow> string \<Rightarrow> bool" where
  "str_includes [] sub = (sub = [])"
| "str_includes (c # cs) sub = (startsWith (c # cs) sub \<or> str_includes cs sub)"

section \<open>Regular expressions of the response interpreter\<close>

text \<open>
  The patterns of \<open>detectPollResponse\<close> are built from literals, one character range,
  optional groups and alternatives, and every one of them is anchored at both ends.
  \<open>rmatch r s\<close> lists what is left of \<open>s\<close> after each way of matching \<open>r\<close> at its
  start; \<open>test\<close> is \<open>RegExp.test\<close> for a pattern \<open>^r$\<close>. The flag \<open>i\<close> lets a
  letter of the pattern match either case of that letter.
\<close>

datatype rx = Lit string | CharRange char char | Opt rx | Alt rx rx | Seq rx rx

definition ci_eq :: "bool \<Rightarrow> char \<Rightarrow> char \<Rightarrow> bool" where
  "ci_eq ignoreCase c p =
     (c = p \<or> (ignoreCase \<and>
        (let a = (of_char c :: nat); b = (of_char p :: nat)
         in (65 \<le> a \<and> a \<le> 90 \<and> b = a + 32) \<or> (65 \<le> b \<and> b \<le> 90 \<and> a = b + 32))))"

fun lit_rest :: "bool \<Rightarrow> string \<Rightarrow> string \<Rightarrow> string list" where
  "lit_rest i [] s = [s]"
| "lit_rest i (p # ps) [] = []"
| "lit_rest i (p # ps) (c # cs) = (if ci_eq i c p then lit_rest i ps cs else [])"

fun rmatch :: "bool \<Rightarrow> rx \<Rightarrow> string \<Rightarrow> string list" where
  "rmatch i (Lit p) s = lit_rest i p s"
| "rmatch i (CharRange lo hi) s =
     (case s of [] \<Rightarrow> []
      | c # cs \<Rightarrow> if (of_char lo :: nat) \<le> of_char c \<and> (of_char c :: nat) \<le> of_char hi
                  then [cs] else [])"
| "rmatch i (Opt r) s = rmatch i r s @ [s]"
| "rmatch i (Alt r1 r2) s = rmatch i r1 s @ rmatch i r2 s"
| "rmatch i (Seq r1 r2) s = concat (map (rmatch i r2) (rmatch i r1 s))"

definition test :: "bool \<Rightarrow> rx \<Rightarrow> string \<Rightarrow> bool" where
  "test i r s = ([] \<in> set (rmatch i r s))"

section \<open>Response interpreter\<close>

definition responseMap :: "(string \<times> string) list" where
  "responseMap =
     [(''1'', ''much_better''), (''2'', ''slightly_better''), (''3'', ''same_symptoms''),
      (''4'', ''worse_condition''), (''5'', ''emergency_help'')]"

definition buttonIds :: "string list" where
  "buttonIds =
     [''much_better'', ''slightly_better'', ''same_symptoms'', ''worse_condition'',
      ''emergency_help'']"

text \<open>\<open>detectPollResponse\<close>; \<open>None\<close> is the \<open>null\<close> of an unclassified message.\<close>

definition detectPollResponse :: "string \<Rightarrow> string option" where
  "detectPollResponse messageText =
     (let text = trim (toLowerCase messageText)
      in if test False (CharRange CHR ''1'' CHR ''5'') text then map_of responseMap text
         else if text \<in> set buttonIds then Some text
         else if test True (Seq (Opt (Lit ''much '')) (Lit ''better'')) text
               \<or> test True (Seq (Lit ''feeling '') (Seq (Opt (Lit ''much '')) (Lit ''better''))) text
           then Some ''much_better''
         else if test True (Lit ''slightly better'') text
               \<or> test True (Seq (Lit ''a '') (Seq (Alt (Lit ''little'') (Lit ''bit'')) (Lit '' better''))) text
           then Some ''slightly_better''
         else if test True (Seq (Opt (Lit ''the '')) (Lit ''same'')) text
               \<or> test True (Lit ''no change'') text
               \<or> test True (Lit ''unchanged'') text
           then Some ''same_symptoms''
         else if test True (Lit ''worse'') text
               \<or> test True (Lit ''getting worse'') text
               \<or> test True (Lit ''feeling worse'') text
           then Some ''worse_condition''
         else if test True (Seq (Opt (Lit ''call '')) (Lit ''911'')) text
               \<or> test True (Lit ''emergency'') text
               \<or> test True (Lit ''need help now'') text
           then Some ''emergency_help''
         else None)"


text \<open>Auxiliary notions for reasoning about the interpreter: texts without ASCII capitals,
  the set of strings a pattern denotes, and the finite table the interpreter realises.\<close>

definition lowered :: "string \<Rightarrow> bool" where
  "lowered s = (\<forall>c \<in> set s. \<not> (65 \<le> (of_char c :: nat) \<and> (of_char c :: nat) \<le> 90))"

fun lang :: "rx \<Rightarrow> string set" where
  "lang (Lit p) = {p}"
| "lang (CharRange lo hi) =
     {[c] | c. (of_char lo :: nat) \<le> of_char c \<and> (of_char c :: nat) \<le> of_char hi}"
| "lang (Opt r) = insert [] (lang r)"
| "lang (Alt r1 r2) = lang r1 \<union> lang r2"
| "lang (Seq r1 r2) = {u @ v | u v. u \<in> lang r1 \<and> v \<in> lang r2}"

fun lower_rx :: "rx \<Rightarrow> bool" where
  "lower_rx (Lit p) = lowered p"
| "lower_rx (CharRange lo hi) = True"
| "lower_rx (Opt r) = lower_rx r"
| "lower_rx (Alt r1 r2) = (lower_rx r1 \<and> lower_rx r2)"
| "lower_rx (Seq r1 r2) = (lower_rx r1 \<and> lower_rx r2)"

definition poll_table :: "(string \<times> string) list" where
  "poll_table =
   [(''1'', ''much_better''), (''2'', ''slightly_better''), (''3'', ''same_symptoms''),
    (''4'', ''worse_condition''), (''5'', ''emergency_help''),
    (''much_better'', ''much_better''), (''slightly_better'', ''slightly_better''),
    (''same_symptoms'', ''same_symptoms''), (''worse_condition'', ''worse_condition''),
    (''emergency_help'', ''emergency_help''),
    (''better'', ''much_better''), (''much better'', ''much_better''),
    (''feeling better'', ''much_better''), (''feeling much better'', ''much_better''),
    (''slightly better'', ''slightly_better''), (''a little better'', ''slightly_better''),
    (''a bit better'', ''slightly_better''),
    (''same'', ''same_symptoms''), (''the same'', ''same_symptoms''),
    (''no change'', ''same_symptoms''), (''unchanged'', ''same_symptoms''),
    (''worse'', ''worse_condition''), (''getting worse'', ''worse_condition''),
    (''feeling worse'', ''worse_condition''),
    (''911'', ''emergency_help''), (''call 911'', ''emergency_help''),
    (''emergency'', ''emergency_help''), (''need help now'', ''emergency_help'')]"

section \<open>JavaScript values and the escalation policy\<close>

text \<open>
  The interval tables are object literals indexed with \<open>table[key]\<close>. Such a lookup
  returns the literal's own entry, otherwise the member of that name inherited from
  \<open>Object.prototype\<close> (a function, or the prototype itself for \<open>__proto__\<close>),
  otherwise \<open>undefined\<close>. \<open>a || b\<close> is \<open>a\<close> when \<open>a\<close> is truthy.
\<close>

datatype jsval = Num int | ProtoMember string | Undefined

definition object_prototype_keys :: "string list" where
  "object_prototype_keys =
     [''constructor'', ''hasOwnProperty'', ''isPrototypeOf'', ''propertyIsEnumerable'',
      ''toLocaleString'', ''toString'', ''valueOf'', ''__proto__'', ''__defineGetter__'',
      ''__defineSetter__'', ''__lookupGetter__'', ''__lookupSetter__'']"

definition js_get :: "(string \<times> int) list \<Rightarrow> string \<Rightarrow> jsval" where
  "js_get obj key =
     (case map_of obj key of
        Some n \<Rightarrow> Num n
      | None \<Rightarrow> if key \<in> set object_prototype_keys then ProtoMember key else Undefined)"

definition truthy :: "jsval \<Rightarrow> bool" where
  "truthy v = (case v of Num n \<Rightarrow> n \<noteq> 0 | ProtoMember k \<Rightarrow> True | Undefined \<Rightarrow> False)"

definition js_or :: "jsval \<Rightarrow> jsval \<Rightarrow> jsval" where
  "js_or a b = (if truthy a then a else b)"

text \<open>\<open>intervalMinutes * 60 * 1000\<close>; \<open>None\<close> is \<open>NaN\<close>.\<close>

definition minutes_to_ms :: "jsval \<Rightarrow> int option" where
  "minutes_to_ms v = (case v of Num n \<Rightarrow> Some (n * 60 * 1000) | _ \<Rightarrow> None)"

definition monitoringIntervals :: "(string \<times> int) list" where
  "monitoringIntervals =
     [(''critical'', 2), (''high'', 5), (''medium'', 15), (''low'', 60), (''emergency'', 1)]"

definition weatherIntervals :: "(string \<times> int) list" where
  "weatherIntervals = [(''emergency'', 15), (''high'', 30), (''routine'', 60)]"

text \<open>The interval chosen by \<open>scheduleHealthCheckup\<close> for a risk level
  (\<open>monitoringIntervals[riskLevel] || monitoringIntervals.medium\<close>).\<close>

definition monitoringInterval :: "string \<Rightarrow> jsval" where
  "monitoringInterval riskLevel =
     js_or (js_get monitoringIntervals riskLevel) (js_get monitoringIntervals ''medium'')"

text \<open>The interval chosen by \<open>scheduleWeatherAlertCheckin\<close>
  (\<open>weatherIntervals[waveStatus.urgency] || 60\<close>).\<close>

definition weatherInterval :: "string \<Rightarrow> jsval" where
  "weatherInterval urgency = js_or (js_get weatherIntervals urgency) (Num 60)"

section \<open>Jobs, queues and the outside world\<close>

record waveStatus =
  urgency :: string
  wave_type :: string

record patient =
  firstName :: string
  age :: nat
  zipcode :: string

text \<open>The result of a symptom analysis as the AI monitoring scheduler reads it.\<close>

record analysis =
  intervals :: "int list"
  analysis_riskLevel :: string

text \<open>
  A job of the health-cron queue: its id, name and options, and the fields of its
  \<open>data\<close> object. A field that the job's data does not have is \<open>None\<close>
  (\<open>Undefined\<close> for the interval), as a handler that destructures it would read.
\<close>

record job =
  jobId :: string
  name :: string
  delay :: "int option"
  repeat_every :: "int option"
  phoneNumber :: string
  tag :: "string option"
  symptom :: "string option"
  riskLevel :: "string option"
  intervalMinutes :: jsval
  checkNumber :: "nat option"
  totalChecks :: "nat option"
  startTime :: "int option"
  checkTime :: "int option"
  job_waveStatus :: "waveStatus option"
  patientData :: "patient option"

text \<open>Message bodies, by template; the wording is not modelled.\<close>

datatype msg =
    EmergencyMonitoring "nat option"
  | CriticalCheck "nat option"
  | HighRiskCheck "nat option" "string option"
  | HealthCheck "nat option"
  | RoutineCheck "nat option"
  | DailyRoutine
  | DailyHealth
  | AiCheck "string option" "nat option" "nat option"
  | LegacyPoll
  | SeniorCheckin
  | GeneralCheckin
  | Onboarding
  | NotUnderstood
  | Call911
  | AiReply string
  | EmergencyFollowup

record wa_job =
  wa_to :: string
  wa_message :: msg
  wa_delay :: "int option"

text \<open>
  The state outside the program: the pending jobs of the health-cron queue, the jobs of
  the WhatsApp queue, and the messages Twilio has accepted. The rows written through
  Prisma are not kept; only the possible failure of a write is modelled.
\<close>

record world =
  cron :: "job list"
  wa :: "wa_job list"
  sms :: "(string \<times> msg) list"

text \<open>
  What the job store does when a job is added under an id that is already present is
  decided by the store, not by this program; the three possibilities are a parameter.
\<close>

datatype dup_policy = KeepBoth | KeepOld | Replace

text \<open>Which collaborators answer during one operation.\<close>

record env =
  cron_get_ok :: bool
  cron_remove_ok :: bool
  cron_add_ok :: bool
  cron_dup :: dup_policy
  wa_add_ok :: bool
  twilio_ok :: bool
  prisma_ok :: bool
  weather_ok :: bool

datatype queue = HealthCronQueue | WhatsappQueue

datatype error =
    StoreError queue
  | TwilioError
  | DbError
  | WeatherServiceError
  | TypeError
  | AnalysisRequired

type_synonym 'a result = "(error + 'a) \<times> world"

section \<open>Job store primitives\<close>

text \<open>\<open>healthCronQueue.getJob(id)\<close>, \<open>job.remove()\<close> and
  \<open>healthCronQueue.add(name, data, {jobId, delay, repeat})\<close>; each may throw.\<close>

definition getJob :: "env \<Rightarrow> string \<Rightarrow> world \<Rightarrow> error + job option" where
  "getJob e jid w =
     (if cron_get_ok e then Inr (find (\<lambda>j. jobId j = jid) (cron w))
      else Inl (StoreError HealthCronQueue))"

fun remove_job :: "string \<Rightarrow> job list \<Rightarrow> job list" where
  "remove_job jid [] = []"
| "remove_job jid (j # js) = (if jobId j = jid then js else j # remove_job jid js)"

definition job_remove :: "env \<Rightarrow> job \<Rightarrow> world \<Rightarrow> unit result" where
  "job_remove e j w =
     (if cron_remove_ok e then (Inr (), w\<lparr>cron := remove_job (jobId j) (cron w)\<rparr>)
      else (Inl (StoreError HealthCronQueue), w))"

definition cron_add :: "env \<Rightarrow> job \<Rightarrow> world \<Rightarrow> unit result" where
  "cron_add e j w =
     (if \<not> cron_add_ok e then (Inl (StoreError HealthCronQueue), w)
      else case cron_dup e of
             KeepBoth \<Rightarrow> (Inr (), w\<lparr>cron := cron w @ [j]\<rparr>)
           | KeepOld \<Rightarrow>
               (if jobId j \<in> set (map jobId (cron w)) then (Inr (), w)
                else (Inr (), w\<lparr>cron := cron w @ [j]\<rparr>))
           | Replace \<Rightarrow>
               (Inr (), w\<lparr>cron := filter (\<lambda>k. jobId k \<noteq> jobId j) (cron w) @ [j]\<rparr>))"

text \<open>\<open>whatsappQueue.add("send-whatsapp", {to, message}, {delay})\<close>; no job id is given.\<close>

definition wa_add :: "env \<Rightarrow> string \<Rightarrow> msg \<Rightarrow> int option \<Rightarrow> world \<Rightarrow> unit result" where
  "wa_add e to m d w =
     (if wa_add_ok e
      then (Inr (), w\<lparr>wa := wa w @ [\<lparr>wa_to = to, wa_message = m, wa_delay = d\<rparr>]\<rparr>)
      else (Inl (StoreError WhatsappQueue), w))"

text \<open>\<open>twilio.messages.create\<close> and \<open>prisma.message.create\<close>.\<close>

definition twilio_send :: "env \<Rightarrow> string \<Rightarrow> msg \<Rightarrow> world \<Rightarrow> unit result" where
  "twilio_send e to m w =
     (if twilio_ok e then (Inr (), w\<lparr>sms := sms w @ [(to, m)]\<rparr>) else (Inl TwilioError, w))"

definition prisma_log :: "env \<Rightarrow> world \<Rightarrow> unit result" where
  "prisma_log e w = (if prisma_ok e then (Inr (), w) else (Inl DbError, w))"

text \<open>Sequencing of awaited calls: an exception ends the sequence, the state stays as it is.\<close>

definition and_then :: "unit result \<Rightarrow> (world \<Rightarrow> 'a result) \<Rightarrow> 'a result" where
  "and_then r f = (case r of (Inl err, w) \<Rightarrow> (Inl err, w) | (Inr u, w) \<Rightarrow> f w)"

section \<open>Monitoring chain controller (queue.js)\<close>

definition empty_data :: job where
  "empty_data =
     \<lparr>jobId = [], name = [], delay = None, repeat_every = None, phoneNumber = [],
      tag = None, symptom = None, riskLevel = None, intervalMinutes = Undefined,
      checkNumber = None, totalChecks = None, startTime = None, checkTime = None,
      job_waveStatus = None, patientData = None\<rparr>"

definition main_job_id :: "string \<Rightarrow> string \<Rightarrow> string" where
  "main_job_id phone t =
     (if t = ''daily'' then ''daily-checkup-'' @ phone
      else if t = ''symptom'' then ''recurring-monitor-'' @ phone @ ''-symptom''
      else if t = ''weather-alert'' then ''weather-alert-'' @ phone
      else ''recurring-monitor-'' @ phone @ ''-'' @ t)"

text \<open>The decimal texts of the legacy intervals \<open>[1, 2, 5, 10, 15, 60]\<close>.\<close>

definition legacy_intervals :: "string list" where
  "legacy_intervals = [''1'', ''2'', ''5'', ''10'', ''15'', ''60'']"

definition legacy_job_id :: "string \<Rightarrow> string \<Rightarrow> string \<Rightarrow> string" where
  "legacy_job_id phone t i = ''health-checkup-'' @ phone @ ''-'' @ t @ ''-'' @ i @ ''min''"

text \<open>\<open>getJob\<close>, then \<open>remove\<close> when the job is there.\<close>

definition remove_if_present :: "env \<Rightarrow> string \<Rightarrow> world \<Rightarrow> unit result" where
  "remove_if_present e jid w =
     (case getJob e jid w of
        Inl err \<Rightarrow> (Inl err, w)
      | Inr None \<Rightarrow> (Inr (), w)
      | Inr (Some j) \<Rightarrow> job_remove e j w)"

text \<open>The loop over the legacy ids; each round has its own \<open>try/catch\<close> that ignores
  the exception.\<close>

fun cancel_legacy :: "env \<Rightarrow> string \<Rightarrow> string \<Rightarrow> string list \<Rightarrow> world \<Rightarrow> world" where
  "cancel_legacy e phone t [] w = w"
| "cancel_legacy e phone t (i # is) w =
     cancel_legacy e phone t is (snd (remove_if_present e (legacy_job_id phone t i) w))"

text \<open>The \<open>try\<close> block of \<open>cancelHealthCheckups\<close> for a tag other than \<open>all\<close>.\<close>

definition cancel_tag_body :: "env \<Rightarrow> string \<Rightarrow> string \<Rightarrow> world \<Rightarrow> unit result" where
  "cancel_tag_body e phone t w =
     and_then (remove_if_present e (main_job_id phone t) w)
       (\<lambda>w'. (Inr (), cancel_legacy e phone t legacy_intervals w'))"

text \<open>The \<open>catch\<close> of \<open>cancelHealthCheckups\<close> logs the exception and returns.\<close>

definition cancel_tag :: "env \<Rightarrow> string \<Rightarrow> string \<Rightarrow> world \<Rightarrow> world" where
  "cancel_tag e phone t w = snd (cancel_tag_body e phone t w)"

definition cancelHealthCheckups :: "env \<Rightarrow> string \<Rightarrow> string option \<Rightarrow> world \<Rightarrow> unit result" where
  "cancelHealthCheckups e phone tag_arg w =
     (let t = (case tag_arg of None \<Rightarrow> ''all'' | Some x \<Rightarrow> x)
      in if t = ''all''
         then (Inr (), fold (cancel_tag e phone) [''symptom'', ''daily'', ''weather-alert''] w)
         else (Inr (), cancel_tag e phone t w))"

definition scheduleHealthCheckup ::
  "env \<Rightarrow> int \<Rightarrow> string \<Rightarrow> string option \<Rightarrow> string option \<Rightarrow> string option \<Rightarrow> world
    \<Rightarrow> unit result" where
  "scheduleHealthCheckup e now phone symptom_arg riskLevel_arg tag_arg w =
     (let level = (case riskLevel_arg of None \<Rightarrow> ''medium'' | Some x \<Rightarrow> x);
          t = (case tag_arg of None \<Rightarrow> ''symptom'' | Some x \<Rightarrow> x)
      in and_then (cancelHealthCheckups e phone (Some t) w)
           (\<lambda>w'. let minutes = monitoringInterval level
                 in cron_add e
                      (empty_data\<lparr>jobId := ''recurring-monitor-'' @ phone @ ''-'' @ t,
                         name := ''recurring-health-monitor'',
                         delay := minutes_to_ms minutes,
                         phoneNumber := phone, symptom := symptom_arg,
                         riskLevel := Some level, intervalMinutes := minutes,
                         checkNumber := Some 1, startTime := Some now, tag := Some t\<rparr>) w'))"

text \<open>
  Wall-clock time is counted in milliseconds of local time from a local midnight, every
  day having 24 hours. \<open>setHours(9, 0, 0, 0)\<close> moves a date to 09:00 of its day,
  \<open>setDate(getDate() + 1)\<close> to the same time on the next day. The two
  \<open>new Date()\<close> of \<open>scheduleDailyCheckup\<close> read the same instant \<open>now\<close>.
\<close>

definition day_ms :: int where
  "day_ms = 24 * 60 * 60 * 1000"

definition setHours9 :: "int \<Rightarrow> int" where
  "setHours9 t = (t div day_ms) * day_ms + 9 * 60 * 60 * 1000"

definition scheduleDailyCheckup :: "env \<Rightarrow> int \<Rightarrow> string \<Rightarrow> world \<Rightarrow> unit result" where
  "scheduleDailyCheckup e now phone w =
     and_then (cancelHealthCheckups e phone (Some ''daily'') w)
       (\<lambda>w'. let next9AM = setHours9 now;
                 next9AM = (if now \<ge> next9AM then next9AM + day_ms else next9AM);
                 d = next9AM - now
             in cron_add e
                  (empty_data\<lparr>jobId := ''daily-checkup-'' @ phone,
                     name := ''daily-health-checkup'',
                     delay := Some d, repeat_every := Some (24 * 60 * 60 * 1000),
                     phoneNumber := phone, checkTime := Some next9AM,
                     tag := Some ''daily''\<rparr>) w')"

definition scheduleWeatherAlertCheckin ::
  "env \<Rightarrow> int \<Rightarrow> string \<Rightarrow> waveStatus \<Rightarrow> patient \<Rightarrow> world \<Rightarrow> unit result" where
  "scheduleWeatherAlertCheckin e now phone ws pd w =
     and_then (cancelHealthCheckups e phone (Some ''weather-alert'') w)
       (\<lambda>w'. let minutes = weatherInterval (urgency ws)
             in if urgency ws = ''emergency'' \<or> urgency ws = ''high''
                then cron_add e
                       (empty_data\<lparr>jobId := ''weather-alert-'' @ phone,
                          name := ''weather-alert-checkin'',
                          delay := minutes_to_ms minutes,
                          phoneNumber := phone, job_waveStatus := Some ws,
                          patientData := Some pd, intervalMinutes := minutes,
                          checkNumber := Some 1, startTime := Some now,
                          tag := Some ''weather-alert''\<rparr>) w'
                else (Inr (), w'))"

text \<open>\<open>updateMonitoringFrequency\<close>: the whole body is inside a \<open>try\<close> whose
  \<open>catch\<close> logs the exception and returns.\<close>

definition updateMonitoringFrequency ::
  "env \<Rightarrow> int \<Rightarrow> string \<Rightarrow> string \<Rightarrow> string option \<Rightarrow> world \<Rightarrow> unit result" where
  "updateMonitoringFrequency e now phone newRiskLevel tag_arg w =
     (let t = (case tag_arg of None \<Rightarrow> ''symptom'' | Some x \<Rightarrow> x);
          r = and_then (cancelHealthCheckups e phone (Some t) w)
                (\<lambda>w'. if t = ''symptom''
                      then scheduleHealthCheckup e now phone (Some ''updated'')
                             (Some newRiskLevel) (Some t) w'
                      else (Inr (), w'))
      in (Inr (), snd r))"

section \<open>AI monitoring scheduler\<close>

text \<open>Decimal text of a number, as a template literal prints it.\<close>

function digits :: "nat \<Rightarrow> string" where
  "digits n =
     (if n < 10 then [char_of (48 + n)] else digits (n div 10) @ [char_of (48 + n mod 10)])"
  by pat_completeness auto
termination
  by (relation "measure id") auto

declare digits.simps [simp del]

text \<open>\<open>cancelAIMonitoring\<close> reads the jobs in the range 0..100 of the delayed and
  waiting jobs (taken here as the 101 most recently added) and removes those of the
  patient; its \<open>catch\<close> logs an exception and returns.\<close>

fun remove_ai_jobs :: "env \<Rightarrow> string \<Rightarrow> job list \<Rightarrow> world \<Rightarrow> unit result" where
  "remove_ai_jobs e phone [] w = (Inr (), w)"
| "remove_ai_jobs e phone (j # js) w =
     (if phoneNumber j = phone \<and> name j = ''ai_symptom_monitoring''
      then and_then (job_remove e j w) (remove_ai_jobs e phone js)
      else remove_ai_jobs e phone js w)"

definition cancelAIMonitoring :: "env \<Rightarrow> string \<Rightarrow> world \<Rightarrow> world" where
  "cancelAIMonitoring e phone w =
     (if cron_get_ok e then snd (remove_ai_jobs e phone (take 101 (rev (cron w))) w) else w)"

text \<open>The loop of \<open>scheduleAISymptomMonitoring\<close> from index \<open>i\<close> over the intervals
  that remain.\<close>

fun enqueue_checks ::
  "env \<Rightarrow> string \<Rightarrow> string \<Rightarrow> patient \<Rightarrow> analysis \<Rightarrow> nat \<Rightarrow> int list \<Rightarrow> world
    \<Rightarrow> unit result" where
  "enqueue_checks e phone base pd a i [] w = (Inr (), w)"
| "enqueue_checks e phone base pd a i (d # ds) w =
     and_then
       (cron_add e
          (empty_data\<lparr>jobId := base @ ''-'' @ digits (i + 1),
             name := ''ai_symptom_monitoring'',
             delay := Some (d * 60 * 1000),
             phoneNumber := phone, patientData := Some pd,
             riskLevel := Some (analysis_riskLevel a),
             checkNumber := Some (i + 1),
             totalChecks := Some (length (intervals a))\<rparr>) w)
       (enqueue_checks e phone base pd a (i + 1) ds)"

definition scheduleAISymptomMonitoring ::
  "env \<Rightarrow> int \<Rightarrow> string \<Rightarrow> patient \<Rightarrow> analysis \<Rightarrow> world \<Rightarrow> unit result" where
  "scheduleAISymptomMonitoring e now phone pd a w =
     (let baseJobId = ''ai-symptom-'' @ phone @ ''-'' @ digits (nat now)
      in enqueue_checks e phone baseJobId pd a 0 (intervals a) (cancelAIMonitoring e phone w))"

section \<open>Workers\<close>

definition processRecurringHealthMonitor :: "env \<Rightarrow> int \<Rightarrow> job \<Rightarrow> world \<Rightarrow> unit result" where
  "processRecurringHealthMonitor e now j w =
     (let n = checkNumber j;
          monitoringMessage =
            (if riskLevel j = Some ''emergency'' then EmergencyMonitoring n
             else if riskLevel j = Some ''critical'' then CriticalCheck n
             else if riskLevel j = Some ''high'' then HighRiskCheck n (symptom j)
             else if riskLevel j = Some ''medium'' then HealthCheck n
             else RoutineCheck n)
      in and_then (twilio_send e (phoneNumber j) monitoringMessage w)
           (\<lambda>w1. and_then (prisma_log e w1)
              (\<lambda>w2. scheduleHealthCheckup e now (phoneNumber j) (symptom j) (riskLevel j)
                       (tag j) w2)))"

definition detectHeatWave :: "env \<Rightarrow> world \<Rightarrow> unit result" where
  "detectHeatWave e w = (if weather_ok e then (Inr (), w) else (Inl WeatherServiceError, w))"

definition processWeatherAlertCheckin :: "env \<Rightarrow> job \<Rightarrow> world \<Rightarrow> unit result" where
  "processWeatherAlertCheckin e j w =
     (case (job_waveStatus j, patientData j) of
        (Some ws, Some pd) \<Rightarrow>
          and_then (if age pd \<ge> 65 then detectHeatWave e w else (Inr (), w))
            (\<lambda>w1. let checkInMessage = (if age pd \<ge> 65 then SeniorCheckin else GeneralCheckin)
                  in and_then (wa_add e (phoneNumber j) checkInMessage None w1)
                       (\<lambda>w2. let nextCheckNumber =
                                   (case checkNumber j of None \<Rightarrow> 1
                                    | Some n \<Rightarrow> if n = 0 then 1 else n) + 1
                             in if urgency ws = ''emergency'' \<or> urgency ws = ''high''
                                then cron_add e
                                       (empty_data\<lparr>jobId := ''weather-alert-'' @ phoneNumber j,
                                          name := ''weather-alert-checkin'',
                                          delay := minutes_to_ms (intervalMinutes j),
                                          phoneNumber := phoneNumber j,
                                          job_waveStatus := Some ws,
                                          patientData := Some pd,
                                          intervalMinutes := intervalMinutes j,
                                          checkNumber := Some nextCheckNumber,
                                          startTime := startTime j,
                                          tag := Some ''weather-alert''\<rparr>) w2
                                else (Inr (), w2)))
      | _ \<Rightarrow> (Inl TypeError, w))"

definition processDailyRoutineCheckup :: "env \<Rightarrow> job \<Rightarrow> world \<Rightarrow> unit result" where
  "processDailyRoutineCheckup e j w =
     and_then (twilio_send e (phoneNumber j) DailyRoutine w) (prisma_log e)"

definition processDailyHealthCheck :: "env \<Rightarrow> job \<Rightarrow> world \<Rightarrow> unit result" where
  "processDailyHealthCheck e j w =
     (case patientData j of
        None \<Rightarrow> (Inl TypeError, w)
      | Some pd \<Rightarrow> and_then (twilio_send e (phoneNumber j) DailyHealth w) (prisma_log e))"

definition processAISymptomCheck :: "env \<Rightarrow> job \<Rightarrow> world \<Rightarrow> unit result" where
  "processAISymptomCheck e j w =
     (case patientData j of
        None \<Rightarrow> (Inl TypeError, w)
      | Some pd \<Rightarrow>
          and_then
            (twilio_send e (phoneNumber j) (AiCheck (riskLevel j) (checkNumber j) (totalChecks j)) w)
            (prisma_log e))"

definition processLegacySymptomCheck :: "env \<Rightarrow> job \<Rightarrow> world \<Rightarrow> unit result" where
  "processLegacySymptomCheck e j w =
     and_then (twilio_send e (phoneNumber j) LegacyPoll w) (prisma_log e)"

text \<open>
  The dispatch of the health-cron worker on the job's name. The two sweeps over all
  patients (\<open>weather-monitoring\<close>, \<open>heat-wave-monitoring\<close>) are outside this model:
  what they do to a patient's jobs goes through \<open>scheduleWeatherAlertCheckin\<close>.
\<close>

definition healthCronWorker :: "env \<Rightarrow> int \<Rightarrow> job \<Rightarrow> world \<Rightarrow> unit result" where
  "healthCronWorker e now j w =
     (if name j = ''daily_health_check'' then processDailyHealthCheck e j w
      else if name j = ''daily-health-checkup'' then processDailyRoutineCheckup e j w
      else if name j = ''weather-monitoring'' then (Inr (), w)
      else if name j = ''heat-wave-monitoring'' then (Inr (), w)
      else if name j = ''ai_symptom'' then processAISymptomCheck e j w
      else if name j = ''weather-alert-checkin'' then processWeatherAlertCheckin e j w
      else if name j = ''recurring-health-monitor'' then processRecurringHealthMonitor e now j w
      else processLegacySymptomCheck e j w)"

text \<open>
  A fire: the store hands the pending job with that id to the worker. A job without a
  repeat option leaves the pending jobs when it is handed over; a job with one stays, the
  store re-arming it for its next period. Redelivery of a job whose handler threw is not
  modelled. \<open>None\<close>: no pending job has that id.
\<close>

definition fire :: "env \<Rightarrow> int \<Rightarrow> string \<Rightarrow> world \<Rightarrow> unit result option" where
  "fire e now jid w =
     (case find (\<lambda>j. jobId j = jid) (cron w) of
        None \<Rightarrow> None
      | Some j \<Rightarrow>
          Some (healthCronWorker e now j
                  (if repeat_every j = None then w\<lparr>cron := remove_job jid (cron w)\<rparr> else w)))"


section \<open>Poll replies\<close>

text \<open>What \<open>handlePollResponse\<close> reads of the analysis that \<open>analyzeSymptoms\<close>
  returns: the message (\<open>smsMessage || advice\<close>, empty when neither is there), the
  flags and the escalation level.\<close>

record ai_analysis =
  ai_message :: string
  rec_emergency :: bool
  rec_escalate :: bool
  emergencyAlert :: bool
  escalationLevel :: "string option"


datatype action = Reduce | Escalate | Emergency | Continue

definition monitoringAction :: "ai_analysis option \<Rightarrow> string \<Rightarrow> action" where
  "monitoringAction aiAnalysis pollResponse =
     (if (case aiAnalysis of None \<Rightarrow> False | Some a \<Rightarrow> rec_emergency a \<or> emergencyAlert a)
        then Emergency
      else if (case aiAnalysis of None \<Rightarrow> False | Some a \<Rightarrow> rec_escalate a)
               \<or> pollResponse = ''worse_condition''
        then Escalate
      else if pollResponse = ''much_better'' then Reduce
      else if pollResponse = ''emergency_help'' then Emergency
      else Continue)"





section \<open>Example collaborators and states\<close>

definition env_up :: env where
  "env_up =
     \<lparr>cron_get_ok = True, cron_remove_ok = True, cron_add_ok = True, cron_dup = KeepOld,
      wa_add_ok = True, twilio_ok = True, prisma_ok = True, weather_ok = True\<rparr>"

definition world_empty :: world where
  "world_empty = \<lparr>cron = [], wa = [], sms = []\<rparr>"

text \<open>A High chain for one patient, as \<open>scheduleHealthCheckup\<close> starts it at time 0.\<close>

definition high_chain :: world where
  "high_chain =
     snd (scheduleHealthCheckup env_up 0 ''+15550001'' (Some ''headache'') (Some ''high'')
            (Some ''symptom'') world_empty)"

text \<open>The job store unreachable for a whole call, and reachable except for \<open>add\<close>.\<close>

definition env_down :: env where
  "env_down = env_up\<lparr>cron_get_ok := False, cron_remove_ok := False, cron_add_ok := False\<rparr>"

definition env_add_down :: env where
  "env_add_down = env_up\<lparr>cron_add_ok := False\<rparr>"

section \<open>Notions used in the proofs\<close>

text \<open>The ids of the pending jobs; \<open>removes w w'\<close>: \<open>w'\<close> is \<open>w\<close> with some
  pending jobs taken out and nothing else changed; the job objects that
  \<open>scheduleHealthCheckup\<close> and \<open>scheduleDailyCheckup\<close> enqueue.\<close>

definition job_ids :: "world \<Rightarrow> string set" where
  "job_ids w = jobId ` set (cron w)"

definition removes :: "world \<Rightarrow> world \<Rightarrow> bool" where
  "removes w w' = (wa w' = wa w \<and> sms w' = sms w \<and> subseq (cron w') (cron w))"

definition recurring_job ::
  "int \<Rightarrow> string \<Rightarrow> string option \<Rightarrow> string option \<Rightarrow> string option \<Rightarrow> job" where
  "recurring_job now phone symptom_arg riskLevel_arg tag_arg =
     (let level = (case riskLevel_arg of None \<Rightarrow> ''medium'' | Some x \<Rightarrow> x);
          t = (case tag_arg of None \<Rightarrow> ''symptom'' | Some x \<Rightarrow> x)
      in empty_data\<lparr>jobId := ''recurring-monitor-'' @ phone @ ''-'' @ t,
           name := ''recurring-health-monitor'',
           delay := minutes_to_ms (monitoringInterval level),
           phoneNumber := phone, symptom := symptom_arg,
           riskLevel := Some level, intervalMinutes := monitoringInterval level,
           checkNumber := Some 1, startTime := Some now, tag := Some t\<rparr>)"

definition tag_or_symptom :: "string option \<Rightarrow> string" where
  "tag_or_symptom tag_arg = (case tag_arg of None \<Rightarrow> ''symptom'' | Some x \<Rightarrow> x)"

definition daily_job :: "int \<Rightarrow> string \<Rightarrow> job" where
  "daily_job now phone =
     (let next9AM = setHours9 now;
          next9AM = (if now \<ge> next9AM then next9AM + day_ms else next9AM)
      in empty_data\<lparr>jobId := ''daily-checkup-'' @ phone,
           name := ''daily-health-checkup'',
           delay := Some (next9AM - now), repeat_every := Some (24 * 60 * 60 * 1000),
           phoneNumber := phone, checkTime := Some next9AM,
           tag := Some ''daily''\<rparr>)"




text \<open>The operations on the chains of queue.js, run one at a time.\<close>

datatype op =
    Start string "string option" "string option" "string option"
  | StartDaily string
  | StartWeather string waveStatus patient
  | Cancel string "string option"
  | Update string string "string option"
  | Fire string

definition run_op :: "env \<Rightarrow> int \<Rightarrow> op \<Rightarrow> world \<Rightarrow> world" where
  "run_op e now operation w =
     (case operation of
        Start p s r t \<Rightarrow> snd (scheduleHealthCheckup e now p s r t w)
      | StartDaily p \<Rightarrow> snd (scheduleDailyCheckup e now p w)
      | StartWeather p ws pd \<Rightarrow> snd (scheduleWeatherAlertCheckin e now p ws pd w)
      | Cancel p t \<Rightarrow> snd (cancelHealthCheckups e p t w)
      | Update p l t \<Rightarrow> snd (updateMonitoringFrequency e now p l t w)
      | Fire jid \<Rightarrow> (case fire e now jid w of None \<Rightarrow> w | Some r \<Rightarrow> snd r))"

fun run :: "(env \<times> int \<times> op) list \<Rightarrow> world \<Rightarrow> world" where
  "run [] w = w"
| "run ((e, now, operation) # rest) w = run rest (run_op e now operation w)"

text \<open>A tag that \<open>cancelHealthCheckups\<close> and \<open>scheduleHealthCheckup\<close> map to the same
  job id.\<close>

definition chain_tag :: "string \<Rightarrow> bool" where
  "chain_tag t = (t \<noteq> ''daily'' \<and> t \<noteq> ''weather-alert'' \<and> t \<noteq> ''all'')"

text \<open>\<open>op_ok\<close>: a start through \<open>scheduleHealthCheckup\<close> uses such a tag;
  \<open>store_ok\<close>: the store answers \<open>getJob\<close> and \<open>remove\<close>.\<close>

definition op_ok :: "op \<Rightarrow> bool" where
  "op_ok operation =
     (case operation of Start p s r t \<Rightarrow> chain_tag (tag_or_symptom t) | _ \<Rightarrow> True)"

definition store_ok :: "env \<Rightarrow> bool" where
  "store_ok e = (cron_get_ok e \<and> cron_remove_ok e)"

text \<open>The invariant of the store: job ids are distinct, and every pending job is a
  recurring monitor, a daily check-up or a weather check-in filed under the id that
  \<open>cancelHealthCheckups\<close> looks up for the job's patient and tag.\<close>

definition wf_job :: "job \<Rightarrow> bool" where
  "wf_job j =
     ((name j = ''recurring-health-monitor'' \<and> repeat_every j = None
        \<and> (case tag j of None \<Rightarrow> False
            | Some t \<Rightarrow> chain_tag t \<and> jobId j = ''recurring-monitor-'' @ phoneNumber j @ ''-'' @ t))
      \<or> (name j = ''daily-health-checkup'' \<and> tag j = Some ''daily''
          \<and> jobId j = ''daily-checkup-'' @ phoneNumber j)
      \<or> (name j = ''weather-alert-checkin'' \<and> repeat_every j = None
          \<and> tag j = Some ''weather-alert'' \<and> jobId j = ''weather-alert-'' @ phoneNumber j))"

definition inv :: "world \<Rightarrow> bool" where
  "inv w = (distinct (map jobId (cron w)) \<and> (\<forall>j \<in> set (cron w). wf_job j))"

text \<open>The pending jobs of one identity (patient, track).\<close>

definition pending_for :: "string \<Rightarrow> string \<Rightarrow> world \<Rightarrow> job list" where
  "pending_for p t w = filter (\<lambda>j. phoneNumber j = p \<and> tag j = Some t) (cron w)"

text \<open>The job that \<open>scheduleWeatherAlertCheckin\<close> and the weather handler enqueue.\<close>

definition weather_job ::
  "string \<Rightarrow> waveStatus \<Rightarrow> patient \<Rightarrow> jsval \<Rightarrow> nat \<Rightarrow> int option \<Rightarrow> job" where
  "weather_job phone ws pd minutes n start =
     empty_data\<lparr>jobId := ''weather-alert-'' @ phone,
        name := ''weather-alert-checkin'',
        delay := minutes_to_ms minutes,
        phoneNumber := phone, job_waveStatus := Some ws,
        patientData := Some pd, intervalMinutes := minutes,
        checkNumber := Some n, startTime := start,
        tag := Some ''weather-alert''\<rparr>"

text \<open>A run of operations, one patient, and an analysis with four intervals.\<close>

definition example_ops :: "(env \<times> int \<times> op) list" where
  "example_ops =
     [(env_up, 0, Start ''+15550001'' (Some ''headache'') (Some ''high'') None),
      (env_up, 60000, Update ''+15550001'' ''critical'' None),
      (env_up, 120000, StartDaily ''+15550001''),
      (env_add_down, 180000, Fire ''recurring-monitor-+15550001-symptom''),
      (env_up, 240000, Start ''+15550001'' (Some ''headache'') (Some ''medium'') (Some ''symptom'')),
      (env_up, 300000, Fire ''recurring-monitor-+15550001-symptom'')]"

definition example_patient :: patient where
  "example_patient = \<lparr>firstName = ''Ann'', age = 70, zipcode = ''00000''\<rparr>"

definition example_analysis :: analysis where
  "example_analysis = \<lparr>intervals = [30, 60, 120, 240], analysis_riskLevel = ''CRITICAL''\<rparr>"





section \<open>Response interpreter: properties\<close>

lemma lowered_simps [simp]:
  "lowered []"
  "lowered (c # cs) = (\<not> (65 \<le> (of_char c :: nat) \<and> (of_char c :: nat) \<le> 90) \<and> lowered cs)"
  by (auto simp: lowered_def)

lemma toLowerCase_char_lowered:
  "\<not> (65 \<le> (of_char (toLowerCase_char c) :: nat) \<and> (of_char (toLowerCase_char c) :: nat) \<le> 90)"
  by (auto simp: toLowerCase_char_def Let_def)

lemma lowered_toLowerCase: "lowered (toLowerCase s)"
  by (induction s) (simp_all add: toLowerCase_def toLowerCase_char_lowered)

lemma lowered_subset: "lowered s \<Longrightarrow> set t \<subseteq> set s \<Longrightarrow> lowered t"
  by (auto simp: lowered_def)

lemma lowered_trim: "lowered s \<Longrightarrow> lowered (trim s)"
  unfolding trim_def
  by (rule lowered_subset[where s=s], assumption)
     (metis set_rev set_dropWhileD subsetI)

lemma ci_eq_lowered:
  "\<not> (65 \<le> (of_char c :: nat) \<and> (of_char c :: nat) \<le> 90) \<Longrightarrow>
   \<not> (65 \<le> (of_char p :: nat) \<and> (of_char p :: nat) \<le> 90) \<Longrightarrow> ci_eq i c p = (c = p)"
  by (auto simp: ci_eq_def Let_def)

lemma lit_rest_lowered:
  "lowered s \<Longrightarrow> lowered p \<Longrightarrow> (y \<in> set (lit_rest i p s)) = (s = p @ y)"
  by (induction i p s rule: lit_rest.induct) (auto simp: ci_eq_lowered)

lemma lit_rest_lowered_rest: "lowered s \<Longrightarrow> y \<in> set (lit_rest i p s) \<Longrightarrow> lowered y"
  by (induction i p s rule: lit_rest.induct) (auto split: if_splits)

lemma rmatch_lowered_rest:
  "lowered s \<Longrightarrow> y \<in> set (rmatch i r s) \<Longrightarrow> lowered y"
proof (induction r arbitrary: s y)
  case (Lit p)
  then show ?case by (simp add: lit_rest_lowered_rest)
next
  case (CharRange lo hi)
  then show ?case by (cases s) (auto split: if_splits)
next
  case (Opt r)
  from Opt.prems(2) have "y \<in> set (rmatch i r s) \<or> y = s" by auto
  then show ?case using Opt.IH Opt.prems(1) by blast
next
  case (Alt r1 r2)
  from Alt.prems(2) have "y \<in> set (rmatch i r1 s) \<or> y \<in> set (rmatch i r2 s)" by auto
  then show ?case using Alt.IH Alt.prems(1) by blast
next
  case (Seq r1 r2)
  from Seq.prems(2) obtain z where z: "z \<in> set (rmatch i r1 s)" "y \<in> set (rmatch i r2 z)"
    by auto
  from Seq.IH(1)[OF Seq.prems(1) z(1)] have "lowered z" .
  from Seq.IH(2)[OF this z(2)] show ?case .
qed

lemma rmatch_lang:
  "lowered s \<Longrightarrow> lower_rx r \<Longrightarrow> (y \<in> set (rmatch i r s)) = (\<exists>w \<in> lang r. s = w @ y)"
proof (induction r arbitrary: s y)
  case (Lit p)
  then show ?case by (simp add: lit_rest_lowered)
next
  case (CharRange lo hi)
  then show ?case by (cases s) auto
next
  case (Opt r)
  then show ?case by auto
next
  case (Alt r1 r2)
  then show ?case by auto
next
  case (Seq r1 r2)
  have "(y \<in> set (rmatch i (Seq r1 r2) s)) =
        (\<exists>z \<in> set (rmatch i r1 s). y \<in> set (rmatch i r2 z))"
    by auto
  also have "\<dots> = (\<exists>z. (\<exists>u \<in> lang r1. s = u @ z) \<and> (\<exists>v \<in> lang r2. z = v @ y))"
  proof -
    have l: "lower_rx r1" "lower_rx r2" using Seq.prems(2) by simp_all
    have "\<And>z. z \<in> set (rmatch i r1 s) \<Longrightarrow>
            (y \<in> set (rmatch i r2 z)) = (\<exists>v \<in> lang r2. z = v @ y)"
      using Seq.IH(2) l(2) rmatch_lowered_rest[OF Seq.prems(1)] by blast
    moreover have "\<And>z. (z \<in> set (rmatch i r1 s)) = (\<exists>u \<in> lang r1. s = u @ z)"
      using Seq.IH(1)[OF Seq.prems(1) l(1)] .
    ultimately show ?thesis by blast
  qed
  also have "\<dots> = (\<exists>w \<in> lang (Seq r1 r2). s = w @ y)"
  proof
    assume "\<exists>z. (\<exists>u \<in> lang r1. s = u @ z) \<and> (\<exists>v \<in> lang r2. z = v @ y)"
    then obtain z u v where uv: "u \<in> lang r1" "s = u @ z" "v \<in> lang r2" "z = v @ y"
      by blast
    have "u @ v \<in> lang (Seq r1 r2)" using uv(1,3) by (simp only: lang.simps) blast
    moreover have "s = (u @ v) @ y" using uv(2,4) by simp
    ultimately show "\<exists>w \<in> lang (Seq r1 r2). s = w @ y" by (rule bexI[rotated])
  next
    assume "\<exists>w \<in> lang (Seq r1 r2). s = w @ y"
    then obtain w where w: "w \<in> lang (Seq r1 r2)" "s = w @ y" by blast
    from w(1) obtain u v where uv: "u \<in> lang r1" "v \<in> lang r2" "w = u @ v"
      by (simp only: lang.simps) blast
    have "(\<exists>u' \<in> lang r1. s = u' @ (v @ y)) \<and> (\<exists>v' \<in> lang r2. v @ y = v' @ y)"
      using uv w(2) by (intro conjI bexI[of _ u] bexI[of _ v]) simp_all
    then show "\<exists>z. (\<exists>u \<in> lang r1. s = u @ z) \<and> (\<exists>v \<in> lang r2. z = v @ y)" by (rule exI)
  qed
  finally show ?case .
qed

lemma test_lang: "lowered s \<Longrightarrow> lower_rx r \<Longrightarrow> test i r s = (s \<in> lang r)"
  by (simp add: test_def rmatch_lang)


lemma digit_range:
  "(49 \<le> (of_char c :: nat) \<and> (of_char c :: nat) \<le> 53) =
   (c \<in> {CHR ''1'', CHR ''2'', CHR ''3'', CHR ''4'', CHR ''5''})"
proof
  assume a: "49 \<le> (of_char c :: nat) \<and> (of_char c :: nat) \<le> 53"
  define n where "n = (of_char c :: nat)"
  have "n = 49 \<or> n = 50 \<or> n = 51 \<or> n = 52 \<or> n = 53" using a unfolding n_def by arith
  moreover have c: "c = char_of n" by (simp add: n_def)
  have "char_of (49::nat) = CHR ''1''" "char_of (50::nat) = CHR ''2''" "char_of (51::nat) = CHR ''3''"
    "char_of (52::nat) = CHR ''4''" "char_of (53::nat) = CHR ''5''" by code_simp+
  ultimately show "c \<in> {CHR ''1'', CHR ''2'', CHR ''3'', CHR ''4'', CHR ''5''}"
    using c by blast
next
  assume "c \<in> {CHR ''1'', CHR ''2'', CHR ''3'', CHR ''4'', CHR ''5''}"
  then have "c = CHR ''1'' \<or> c = CHR ''2'' \<or> c = CHR ''3'' \<or> c = CHR ''4'' \<or> c = CHR ''5''" by blast
  then show "49 \<le> (of_char c :: nat) \<and> (of_char c :: nat) \<le> 53" by (elim disjE) simp_all
qed

lemma lang_opt_lit: "(x \<in> lang (Seq (Opt (Lit a)) (Lit b))) = (x = b \<or> x = a @ b)"
  by auto

lemma lang_lit_opt_lit:
  "(x \<in> lang (Seq (Lit a) (Seq (Opt (Lit m)) (Lit b)))) = (x = a @ b \<or> x = a @ m @ b)"
  by auto

lemma lang_lit_alt_lit:
  "(x \<in> lang (Seq (Lit a) (Seq (Alt (Lit p) (Lit q)) (Lit b)))) = (x = a @ p @ b \<or> x = a @ q @ b)"
  by auto

lemma lang_digit:
  "(x \<in> lang (CharRange CHR ''1'' CHR ''5'')) = (x \<in> {''1'', ''2'', ''3'', ''4'', ''5''})"
proof -
  have "(x \<in> lang (CharRange CHR ''1'' CHR ''5'')) =
        (\<exists>c. x = [c] \<and> 49 \<le> (of_char c :: nat) \<and> (of_char c :: nat) \<le> 53)"
    by simp
  also have "\<dots> = (\<exists>c. x = [c] \<and> c \<in> {CHR ''1'', CHR ''2'', CHR ''3'', CHR ''4'', CHR ''5''})"
    by (simp only: digit_range)
  also have "\<dots> = (x \<in> {''1'', ''2'', ''3'', ''4'', ''5''})"
    by blast
  finally show ?thesis .
qed

lemma tests_lowered:
  assumes "lowered x"
  shows "test False (CharRange CHR ''1'' CHR ''5'') x = (x \<in> {''1'', ''2'', ''3'', ''4'', ''5''})"
    and "test True (Seq (Opt (Lit ''much '')) (Lit ''better'')) x = (x = ''better'' \<or> x = ''much better'')"
    and "test True (Seq (Lit ''feeling '') (Seq (Opt (Lit ''much '')) (Lit ''better''))) x
          = (x = ''feeling better'' \<or> x = ''feeling much better'')"
    and "test True (Lit ''slightly better'') x = (x = ''slightly better'')"
    and "test True (Seq (Lit ''a '') (Seq (Alt (Lit ''little'') (Lit ''bit'')) (Lit '' better''))) x
          = (x = ''a little better'' \<or> x = ''a bit better'')"
    and "test True (Seq (Opt (Lit ''the '')) (Lit ''same'')) x = (x = ''same'' \<or> x = ''the same'')"
    and "test True (Lit ''no change'') x = (x = ''no change'')"
    and "test True (Lit ''unchanged'') x = (x = ''unchanged'')"
    and "test True (Lit ''worse'') x = (x = ''worse'')"
    and "test True (Lit ''getting worse'') x = (x = ''getting worse'')"
    and "test True (Lit ''feeling worse'') x = (x = ''feeling worse'')"
    and "test True (Seq (Opt (Lit ''call '')) (Lit ''911'')) x = (x = ''911'' \<or> x = ''call 911'')"
    and "test True (Lit ''emergency'') x = (x = ''emergency'')"
    and "test True (Lit ''need help now'') x = (x = ''need help now'')"
  using assms
  by (simp_all add: test_lang lang_opt_lit lang_lit_opt_lit lang_lit_alt_lit lang_digit del: lang.simps(2,5))

lemma detect_lowered:
  assumes "lowered x"
  shows "(if test False (CharRange CHR ''1'' CHR ''5'') x then map_of responseMap x
         else if x \<in> set buttonIds then Some x
         else if test True (Seq (Opt (Lit ''much '')) (Lit ''better'')) x
               \<or> test True (Seq (Lit ''feeling '') (Seq (Opt (Lit ''much '')) (Lit ''better''))) x
           then Some ''much_better''
         else if test True (Lit ''slightly better'') x
               \<or> test True (Seq (Lit ''a '') (Seq (Alt (Lit ''little'') (Lit ''bit'')) (Lit '' better''))) x
           then Some ''slightly_better''
         else if test True (Seq (Opt (Lit ''the '')) (Lit ''same'')) x
               \<or> test True (Lit ''no change'') x
               \<or> test True (Lit ''unchanged'') x
           then Some ''same_symptoms''
         else if test True (Lit ''worse'') x
               \<or> test True (Lit ''getting worse'') x
               \<or> test True (Lit ''feeling worse'') x
           then Some ''worse_condition''
         else if test True (Seq (Opt (Lit ''call '')) (Lit ''911'')) x
               \<or> test True (Lit ''emergency'') x
               \<or> test True (Lit ''need help now'') x
           then Some ''emergency_help''
         else None) = map_of poll_table x"
proof (cases "x \<in> set (map fst poll_table)")
  case False
  then show ?thesis
    by (simp only: tests_lowered[OF assms]) (simp add: responseMap_def buttonIds_def poll_table_def)
next
  case True
  then have "x = ''1'' \<or> x = ''2'' \<or> x = ''3'' \<or> x = ''4'' \<or> x = ''5''
    \<or> x = ''much_better'' \<or> x = ''slightly_better'' \<or> x = ''same_symptoms''
    \<or> x = ''worse_condition'' \<or> x = ''emergency_help''
    \<or> x = ''better'' \<or> x = ''much better'' \<or> x = ''feeling better''
    \<or> x = ''feeling much better'' \<or> x = ''slightly better'' \<or> x = ''a little better''
    \<or> x = ''a bit better'' \<or> x = ''same'' \<or> x = ''the same'' \<or> x = ''no change''
    \<or> x = ''unchanged'' \<or> x = ''worse'' \<or> x = ''getting worse'' \<or> x = ''feeling worse''
    \<or> x = ''911'' \<or> x = ''call 911'' \<or> x = ''emergency'' \<or> x = ''need help now''"
    unfolding poll_table_def by simp
  moreover have "?thesis = ((if x \<in> {''1'', ''2'', ''3'', ''4'', ''5''} then map_of responseMap x
         else if x \<in> set buttonIds then Some x
         else if (x = ''better'' \<or> x = ''much better'')
               \<or> x = ''feeling better'' \<or> x = ''feeling much better''
           then Some ''much_better''
         else if x = ''slightly better'' \<or> x = ''a little better'' \<or> x = ''a bit better''
           then Some ''slightly_better''
         else if (x = ''same'' \<or> x = ''the same'') \<or> x = ''no change'' \<or> x = ''unchanged''
           then Some ''same_symptoms''
         else if x = ''worse'' \<or> x = ''getting worse'' \<or> x = ''feeling worse''
           then Some ''worse_condition''
         else if (x = ''911'' \<or> x = ''call 911'') \<or> x = ''emergency'' \<or> x = ''need help now''
           then Some ''emergency_help''
         else None) = map_of poll_table x)"
    by (simp only: tests_lowered[OF assms])
  ultimately show ?thesis
    by (elim disjE) (simp_all add: responseMap_def buttonIds_def poll_table_def)
qed



lemma poll_table_worse:
  assumes "str_includes x ''worse''"
    and "x \<notin> {''worse'', ''getting worse'', ''feeling worse'', ''worse_condition''}"
  shows "map_of poll_table x = None"
proof (cases "x \<in> set (map fst poll_table)")
  case False
  then show ?thesis by (simp add: map_of_eq_None_iff)
next
  case True
  then have "x = ''1'' \<or> x = ''2'' \<or> x = ''3'' \<or> x = ''4'' \<or> x = ''5''
    \<or> x = ''much_better'' \<or> x = ''slightly_better'' \<or> x = ''same_symptoms''
    \<or> x = ''worse_condition'' \<or> x = ''emergency_help''
    \<or> x = ''better'' \<or> x = ''much better'' \<or> x = ''feeling better''
    \<or> x = ''feeling much better'' \<or> x = ''slightly better'' \<or> x = ''a little better''
    \<or> x = ''a bit better'' \<or> x = ''same'' \<or> x = ''the same'' \<or> x = ''no change''
    \<or> x = ''unchanged'' \<or> x = ''worse'' \<or> x = ''getting worse'' \<or> x = ''feeling worse''
    \<or> x = ''911'' \<or> x = ''call 911'' \<or> x = ''emergency'' \<or> x = ''need help now''"
    unfolding poll_table_def by simp
  then show ?thesis using assms by (elim disjE) simp_all
qed

text \<open>
  Claim C3. After lower-casing and trimming, the interpreter is a lookup in a fixed finite
  table: a bare digit 1-5 gives the response at that position, a canonical token gives
  itself, eighteen short exact phrasings give their category, and every other text is
  unclassified. In particular a text that contains the word "worse" without being one of
  the exact phrasings is unclassified; "3" gives \<open>same_symptoms\<close>, "  WORSE  " gives
  \<open>worse_condition\<close>, and the spec's free-form sentence is unclassified.
\<close>

theorem detectPollResponse_classification:
  "detectPollResponse t = map_of poll_table (trim (toLowerCase t))
   \<and> (str_includes (trim (toLowerCase t)) ''worse''
        \<and> trim (toLowerCase t)
             \<notin> {''worse'', ''getting worse'', ''feeling worse'', ''worse_condition''}
      \<longrightarrow> detectPollResponse t = None)
   \<and> detectPollResponse ''3'' = Some ''same_symptoms''
   \<and> detectPollResponse ''  WORSE  '' = Some ''worse_condition''
   \<and> detectPollResponse ''I feel worse than my headache yesterday, it really hurts'' = None"
proof -
  have low: "lowered (trim (toLowerCase t))"
    by (rule lowered_trim) (rule lowered_toLowerCase)
  have tab: "detectPollResponse t = map_of poll_table (trim (toLowerCase t))"
    unfolding detectPollResponse_def Let_def by (rule detect_lowered[OF low])
  have ex1: "detectPollResponse ''3'' = Some ''same_symptoms''" by code_simp
  have ex2: "detectPollResponse ''  WORSE  '' = Some ''worse_condition''" by code_simp
  have ex3: "detectPollResponse ''I feel worse than my headache yesterday, it really hurts'' = None"
    by code_simp
  show ?thesis using tab poll_table_worse ex1 ex2 ex3 by auto
qed

theorem detectPollResponse_classification_witness:
  "str_includes (trim (toLowerCase ''My cough is worse than before'')) ''worse''
   \<and> trim (toLowerCase ''My cough is worse than before'')
        \<notin> {''worse'', ''getting worse'', ''feeling worse'', ''worse_condition''}
   \<and> detectPollResponse ''My cough is worse than before'' = None"
proof -
  have h: "str_includes (trim (toLowerCase ''My cough is worse than before'')) ''worse''
     \<and> trim (toLowerCase ''My cough is worse than before'')
        \<notin> {''worse'', ''getting worse'', ''feeling worse'', ''worse_condition''}"
    by code_simp
  from detectPollResponse_classification[of "''My cough is worse than before''"] h
  show ?thesis by blast
qed

section \<open>Escalation policy: properties\<close>

text \<open>
  Claim C2. The policy returns 1, 2, 5, 15 and 60 minutes for emergency, critical, high,
  medium and low, and 15 minutes for a level name that is neither in the table nor a
  member every object inherits (lemmas \<open>monitoringInterval_table\<close> and
  \<open>monitoringInterval_default\<close> below). For the level name "constructor", which is not
  in the table, the lookup finds the inherited member, which is truthy, so the default is
  not taken: the interval is not 15 minutes and the delay computed from it is not a
  number.
\<close>

theorem monitoringInterval_inherited_name:
  "monitoringInterval ''constructor'' = ProtoMember ''constructor''
   \<and> monitoringInterval ''constructor'' \<noteq> Num 15
   \<and> minutes_to_ms (monitoringInterval ''constructor'') = None"
  by (simp add: monitoringInterval_def js_get_def js_or_def truthy_def monitoringIntervals_def
        object_prototype_keys_def minutes_to_ms_def)

lemma monitoringInterval_table:
  "monitoringInterval ''emergency'' = Num 1"
  "monitoringInterval ''critical'' = Num 2"
  "monitoringInterval ''high'' = Num 5"
  "monitoringInterval ''medium'' = Num 15"
  "monitoringInterval ''low'' = Num 60"
  by (simp_all add: monitoringInterval_def js_get_def js_or_def truthy_def monitoringIntervals_def)

lemma monitoringInterval_default:
  "level \<notin> set (map fst monitoringIntervals) \<Longrightarrow> level \<notin> set object_prototype_keys \<Longrightarrow>
   monitoringInterval level = Num 15"
  by (simp add: monitoringInterval_def js_get_def js_or_def truthy_def monitoringIntervals_def
        map_of_eq_None_iff[THEN iffD2] split: option.splits)

section \<open>Fire handlers: properties\<close>

text \<open>
  Claim C6. The first job of a High chain has check number 1. When it fires with every
  collaborator answering, the handler sends check 1 and enqueues exactly one successor
  with the same track, level and symptom, but the successor's check number is again 1,
  not 2: the handler reschedules through \<open>scheduleHealthCheckup\<close>, which always
  writes check number 1 and a fresh start time.
\<close>

theorem recurring_successor_restarts_count:
  "cron high_chain =
     [empty_data\<lparr>jobId := ''recurring-monitor-+15550001-symptom'',
        name := ''recurring-health-monitor'', delay := Some 300000,
        phoneNumber := ''+15550001'', symptom := Some ''headache'', riskLevel := Some ''high'',
        intervalMinutes := Num 5, checkNumber := Some 1, startTime := Some 0,
        tag := Some ''symptom''\<rparr>]
   \<and> fire env_up 300000 ''recurring-monitor-+15550001-symptom'' high_chain =
       Some (Inr (),
         \<lparr>cron = [empty_data\<lparr>jobId := ''recurring-monitor-+15550001-symptom'',
              name := ''recurring-health-monitor'', delay := Some 300000,
              phoneNumber := ''+15550001'', symptom := Some ''headache'',
              riskLevel := Some ''high'', intervalMinutes := Num 5, checkNumber := Some 1,
              startTime := Some 300000, tag := Some ''symptom''\<rparr>],
          wa = [],
          sms = [(''+15550001'', HighRiskCheck (Some 1) (Some ''headache''))]\<rparr>)"
  by code_simp

section \<open>Job store: properties\<close>

lemma removes_refl [simp]: "removes w w"
  by (simp add: removes_def)

lemma subseq_set_mono: "subseq xs ys \<Longrightarrow> set xs \<subseteq> set ys"
  by (induct rule: list_emb.induct) auto

lemma subseq_distinct: "subseq xs ys \<Longrightarrow> distinct ys \<Longrightarrow> distinct xs"
proof (induct rule: list_emb.induct)
  case (list_emb_Cons2 x y xs ys)
  then show ?case using subseq_set_mono[of xs ys] by auto
qed auto

lemma removes_trans:
  assumes "removes w w'" and "removes w' w''"
  shows "removes w w''"
proof -
  have "subseq (cron w'') (cron w')" and "subseq (cron w') (cron w)"
    using assms by (simp_all add: removes_def)
  then have "subseq (cron w'') (cron w)" by (rule subseq_order.trans)
  then show ?thesis using assms by (simp add: removes_def)
qed

lemma removes_distinct:
  assumes "removes w w'" and "distinct (map jobId (cron w))"
  shows "distinct (map jobId (cron w'))"
proof -
  have "subseq (cron w') (cron w)" using assms(1) by (simp add: removes_def)
  then have "subseq (map jobId (cron w')) (map jobId (cron w))" by (rule subseq_map)
  then show ?thesis using assms(2) by (rule subseq_distinct)
qed

lemma removes_set:
  assumes "removes w w'"
  shows "set (cron w') \<subseteq> set (cron w)"
proof -
  have "subseq (cron w') (cron w)" using assms by (simp add: removes_def)
  then show ?thesis by (rule subseq_set_mono)
qed

lemma removes_ids: "removes w w' \<Longrightarrow> job_ids w' \<subseteq> job_ids w"
  unfolding job_ids_def by (rule image_mono) (rule removes_set)

lemma subseq_remove_job: "subseq (remove_job i js) js"
  by (induction js) auto

lemma remove_job_absent:
  "distinct (map jobId js) \<Longrightarrow> i \<notin> jobId ` set (remove_job i js)"
  by (induction js) auto

lemma find_jobId:
  "find (\<lambda>j. jobId j = i) js = Some j \<Longrightarrow> jobId j = i \<and> j \<in> set js"
  by (induction js) (auto split: if_splits)

lemma find_None_absent:
  "find (\<lambda>j. jobId j = i) js = None \<Longrightarrow> i \<notin> jobId ` set js"
  by (auto simp: find_None_iff)


lemma job_remove_removes: "removes w (snd (job_remove e j w))"
  by (simp add: job_remove_def removes_def subseq_remove_job)

lemma remove_if_present_removes: "removes w (snd (remove_if_present e i w))"
proof (cases "getJob e i w")
  case (Inl a)
  then show ?thesis by (simp add: remove_if_present_def)
next
  case (Inr jo)
  then show ?thesis
    by (cases jo) (simp_all add: remove_if_present_def job_remove_removes)
qed

lemma remove_if_present_absent:
  assumes "cron_get_ok e" "cron_remove_ok e" "distinct (map jobId (cron w))"
  shows "fst (remove_if_present e i w) = Inr () \<and> i \<notin> job_ids (snd (remove_if_present e i w))"
proof (cases "find (\<lambda>j. jobId j = i) (cron w)")
  case None
  have "i \<notin> jobId ` set (cron w)" using None by (rule find_None_absent)
  then show ?thesis
    using assms(1) None by (simp add: remove_if_present_def getJob_def job_ids_def)
next
  case (Some j)
  have j: "jobId j = i" using find_jobId[OF Some] by simp
  have "i \<notin> jobId ` set (remove_job i (cron w))" using assms(3) by (rule remove_job_absent)
  then show ?thesis
    using assms(1,2) Some j
    by (simp add: remove_if_present_def getJob_def job_remove_def job_ids_def)
qed

lemma cancel_legacy_removes: "removes w (cancel_legacy e p t is w)"
proof (induction "is" arbitrary: w)
  case Nil
  then show ?case by simp
next
  case (Cons i "is")
  have "removes w (snd (remove_if_present e (legacy_job_id p t i) w))"
    by (rule remove_if_present_removes)
  moreover have "removes (snd (remove_if_present e (legacy_job_id p t i) w))
      (cancel_legacy e p t is (snd (remove_if_present e (legacy_job_id p t i) w)))"
    by (rule Cons.IH)
  ultimately show ?case by (simp add: removes_trans[of w])
qed

lemma cancel_tag_removes: "removes w (cancel_tag e p t w)"
proof -
  obtain r w1 where r: "remove_if_present e (main_job_id p t) w = (r, w1)"
    by (cases "remove_if_present e (main_job_id p t) w")
  have 1: "removes w w1" using remove_if_present_removes[of w e "main_job_id p t"] r by simp
  show ?thesis
  proof (cases r)
    case (Inl a)
    then show ?thesis using r 1 by (simp add: cancel_tag_def cancel_tag_body_def and_then_def)
  next
    case (Inr b)
    then show ?thesis
      using r removes_trans[OF 1 cancel_legacy_removes[of w1 e p t legacy_intervals]]
      by (simp add: cancel_tag_def cancel_tag_body_def and_then_def)
  qed
qed

lemma cancel_tag_absent:
  assumes "cron_get_ok e" "cron_remove_ok e" "distinct (map jobId (cron w))"
  shows "main_job_id p t \<notin> job_ids (cancel_tag e p t w)"
proof -
  obtain r w1 where r: "remove_if_present e (main_job_id p t) w = (r, w1)"
    by (cases "remove_if_present e (main_job_id p t) w")
  from remove_if_present_absent[OF assms, of "main_job_id p t"] r
  have ok: "r = Inr ()" and abs: "main_job_id p t \<notin> job_ids w1" by simp_all
  have "cancel_tag e p t w = cancel_legacy e p t legacy_intervals w1"
    using r ok by (simp add: cancel_tag_def cancel_tag_body_def and_then_def)
  then show ?thesis
    using abs removes_ids[OF cancel_legacy_removes[of w1 e p t legacy_intervals]] by auto
qed

lemma cancelHealthCheckups_ok: "fst (cancelHealthCheckups e p t w) = Inr ()"
  unfolding cancelHealthCheckups_def Let_def by (simp only: if_distrib[of fst] fst_conv if_cancel)

lemma cancelHealthCheckups_removes: "removes w (snd (cancelHealthCheckups e p t w))"
proof -
  have "removes w (cancel_tag e p ''weather-alert'' (cancel_tag e p ''daily'' (cancel_tag e p ''symptom'' w)))"
    using removes_trans[OF removes_trans[OF cancel_tag_removes cancel_tag_removes] cancel_tag_removes] .
  then show ?thesis
    by (simp add: cancelHealthCheckups_def Let_def cancel_tag_removes)
qed

lemma cancelHealthCheckups_tag:
  "t \<noteq> ''all'' \<Longrightarrow> cancelHealthCheckups e p (Some t) w = (Inr (), cancel_tag e p t w)"
  by (simp add: cancelHealthCheckups_def)

lemma cron_add_fresh:
  "jobId j \<notin> job_ids w \<Longrightarrow>
   cron_add e j w = (if cron_add_ok e then (Inr (), w\<lparr>cron := cron w @ [j]\<rparr>)
                     else (Inl (StoreError HealthCronQueue), w))"
proof -
  assume "jobId j \<notin> job_ids w"
  then have n: "jobId j \<notin> jobId ` set (cron w)"
    unfolding job_ids_def .
  then have "\<forall>k \<in> set (cron w). jobId k \<noteq> jobId j" by (metis imageI)
  then have f: "filter (\<lambda>k. jobId k \<noteq> jobId j) (cron w) = cron w"
    by (simp add: filter_id_conv)
  show ?thesis
    by (cases "cron_dup e") (simp_all add: cron_add_def f n)
qed

lemma cancelHealthCheckups_pair:
  "cancelHealthCheckups e p t w = (Inr (), snd (cancelHealthCheckups e p t w))"
  using cancelHealthCheckups_ok[of e p t w] by (metis prod.collapse)

lemma and_then_cancel:
  "and_then (cancelHealthCheckups e p t w) f = f (snd (cancelHealthCheckups e p t w))"
  by (subst cancelHealthCheckups_pair) (simp add: and_then_def)

lemma scheduleHealthCheckup_unfold:
  "scheduleHealthCheckup e now p s r t w =
     cron_add e (recurring_job now p s r t)
       (snd (cancelHealthCheckups e p (Some (tag_or_symptom t)) w))"
  by (simp add: scheduleHealthCheckup_def recurring_job_def tag_or_symptom_def Let_def
        and_then_cancel)


lemma cron_add_error:
  "fst (cron_add e j w) = Inl err \<Longrightarrow>
   err = StoreError HealthCronQueue \<and> snd (cron_add e j w) = w \<and> \<not> cron_add_ok e"
  by (cases "cron_dup e"; simp add: cron_add_def split: if_splits)

lemma cron_add_down: "\<not> cron_add_ok e \<Longrightarrow> cron_add e j w = (Inl (StoreError HealthCronQueue), w)"
  by (simp add: cron_add_def)



lemma scheduleHealthCheckup_error:
  "fst (scheduleHealthCheckup e now p s r t w) = Inl err \<Longrightarrow> err = StoreError HealthCronQueue"
  unfolding scheduleHealthCheckup_unfold using cron_add_error by blast

lemma remove_if_present_down:
  "\<not> cron_get_ok e \<Longrightarrow> remove_if_present e i w = (Inl (StoreError HealthCronQueue), w)"
  by (simp add: remove_if_present_def getJob_def)

lemma cancel_tag_down: "\<not> cron_get_ok e \<Longrightarrow> cancel_tag e p t w = w"
  by (simp add: cancel_tag_def cancel_tag_body_def remove_if_present_down and_then_def)

lemma cancelHealthCheckups_down:
  "\<not> cron_get_ok e \<Longrightarrow> cancelHealthCheckups e p t w = (Inr (), w)"
  by (simp add: cancelHealthCheckups_def Let_def cancel_tag_down)

text \<open>
  Claim C10 (as amended). When the job store is unreachable for the whole of a call,
  the enqueuing operations \<open>scheduleHealthCheckup\<close>, \<open>scheduleDailyCheckup\<close> and
  (for emergency and high urgency) \<open>scheduleWeatherAlertCheckin\<close> return the store's
  error to their caller and leave the outside world exactly as it was, while
  \<open>cancelHealthCheckups\<close> and \<open>updateMonitoringFrequency\<close> catch the error, return
  normally, and also leave the world as it was.
\<close>

theorem store_unreachable_all_or_nothing:
  assumes "\<not> cron_get_ok e" and "\<not> cron_remove_ok e" and "\<not> cron_add_ok e"
  shows "scheduleHealthCheckup e now p s r t w = (Inl (StoreError HealthCronQueue), w)
    \<and> scheduleDailyCheckup e now p w = (Inl (StoreError HealthCronQueue), w)
    \<and> (urgency ws = ''emergency'' \<or> urgency ws = ''high'' \<longrightarrow>
         scheduleWeatherAlertCheckin e now p ws pd w = (Inl (StoreError HealthCronQueue), w))
    \<and> cancelHealthCheckups e p t w = (Inr (), w)
    \<and> updateMonitoringFrequency e now p l t w = (Inr (), w)"
proof -
  have c: "\<And>x. cancelHealthCheckups e p x w = (Inr (), w)"
    using assms(1) by (rule cancelHealthCheckups_down)
  have a: "\<And>j. cron_add e j w = (Inl (StoreError HealthCronQueue), w)"
    using assms(3) by (rule cron_add_down)
  have 1: "scheduleHealthCheckup e now p s r t w = (Inl (StoreError HealthCronQueue), w)"
    by (simp add: scheduleHealthCheckup_unfold c a)
  have 2: "scheduleDailyCheckup e now p w = (Inl (StoreError HealthCronQueue), w)"
    by (simp add: scheduleDailyCheckup_def c a and_then_def Let_def)
  have 3: "urgency ws = ''emergency'' \<or> urgency ws = ''high'' \<longrightarrow>
         scheduleWeatherAlertCheckin e now p ws pd w = (Inl (StoreError HealthCronQueue), w)"
    by (simp add: scheduleWeatherAlertCheckin_def c a and_then_def Let_def)
  have 5: "updateMonitoringFrequency e now p l t w = (Inr (), w)"
    by (simp add: updateMonitoringFrequency_def Let_def c and_then_def
          scheduleHealthCheckup_unfold a)
  show ?thesis using 1 2 3 c 5 by simp
qed

theorem store_unreachable_all_or_nothing_witness:
  "\<not> cron_get_ok env_down \<and> \<not> cron_remove_ok env_down \<and> \<not> cron_add_ok env_down
   \<and> urgency \<lparr>urgency = ''high'', wave_type = ''heat''\<rparr> = ''high''
   \<and> scheduleHealthCheckup env_down 60000 ''+15550001'' (Some ''headache'') (Some ''critical'')
        (Some ''symptom'') high_chain = (Inl (StoreError HealthCronQueue), high_chain)
   \<and> scheduleWeatherAlertCheckin env_down 60000 ''+15550001''
        \<lparr>urgency = ''high'', wave_type = ''heat''\<rparr>
        \<lparr>firstName = ''A'', age = 70, zipcode = ''00000''\<rparr> high_chain
        = (Inl (StoreError HealthCronQueue), high_chain)
   \<and> cancelHealthCheckups env_down ''+15550001'' (Some ''symptom'') high_chain
        = (Inr (), high_chain)"
proof -
  have h: "\<not> cron_get_ok env_down" "\<not> cron_remove_ok env_down" "\<not> cron_add_ok env_down"
    by (simp_all add: env_down_def)
  show ?thesis
    using h store_unreachable_all_or_nothing[OF h, of 60000 "''+15550001''" "Some ''headache''"
        "Some ''critical''" "Some ''symptom''" high_chain "\<lparr>urgency = ''high'', wave_type = ''heat''\<rparr>"
        "\<lparr>firstName = ''A'', age = 70, zipcode = ''00000''\<rparr>"]
    by simp
qed

text \<open>
  Claim C10 as stated fails twice. With the store unreachable, \<open>cancelHealthCheckups\<close>
  returns normally instead of propagating the error. And when the store fails only at the
  \<open>add\<close>, after the cancel went through, \<open>scheduleHealthCheckup\<close> returns the
  error with the High chain's pending job already removed.
\<close>

theorem store_error_counterexample:
  "cancelHealthCheckups env_down ''+15550001'' (Some ''symptom'') high_chain = (Inr (), high_chain)
   \<and> fst (scheduleHealthCheckup env_add_down 60000 ''+15550001'' (Some ''headache'')
            (Some ''critical'') (Some ''symptom'') high_chain) = Inl (StoreError HealthCronQueue)
   \<and> cron (snd (scheduleHealthCheckup env_add_down 60000 ''+15550001'' (Some ''headache'')
            (Some ''critical'') (Some ''symptom'') high_chain)) = []
   \<and> length (cron high_chain) = 1"
  by code_simp

lemma scheduleDailyCheckup_unfold:
  "scheduleDailyCheckup e now p w =
     cron_add e (daily_job now p) (cancel_tag e p ''daily'' w)"
  by (simp add: scheduleDailyCheckup_def daily_job_def Let_def and_then_def
        cancelHealthCheckups_tag)

lemma next9AM_props:
  fixes now :: int
  defines "n0 \<equiv> setHours9 now"
  defines "n \<equiv> (if now \<ge> n0 then n0 + day_ms else n0)"
  shows "0 < n - now" and "n - now \<le> day_ms" and "n mod day_ms = 9 * 60 * 60 * 1000"
    and "now mod day_ms < 9 * 60 * 60 * 1000 \<Longrightarrow> n div day_ms = now div day_ms"
    and "\<not> now mod day_ms < 9 * 60 * 60 * 1000 \<Longrightarrow> n div day_ms = now div day_ms + 1"
proof -
  define q where "q = now div 86400000"
  define m where "m = now mod 86400000"
  have now: "now = q * 86400000 + m" by (simp add: q_def m_def)
  have m: "0 \<le> m" "m < 86400000" by (simp_all add: m_def)
  have n0: "n0 = q * 86400000 + 32400000" by (simp add: n0_def setHours9_def day_ms_def q_def)
  have ge: "(now \<ge> n0) = (m \<ge> 32400000)" using now n0 by simp
  show "0 < n - now" using m now n0 ge by (simp add: n_def day_ms_def)
  show "n - now \<le> day_ms" using m now n0 ge by (simp add: n_def day_ms_def)
  have nq: "n = (if m \<ge> 32400000 then (q + 1) * 86400000 + 32400000 else q * 86400000 + 32400000)"
    using n0 ge by (simp add: n_def day_ms_def algebra_simps)
  show "n mod day_ms = 9 * 60 * 60 * 1000"
    unfolding nq day_ms_def by simp
  show "now mod day_ms < 9 * 60 * 60 * 1000 \<Longrightarrow> n div day_ms = now div day_ms"
    unfolding nq day_ms_def using m by (simp add: m_def[symmetric] q_def[symmetric])
  show "\<not> now mod day_ms < 9 * 60 * 60 * 1000 \<Longrightarrow> n div day_ms = now div day_ms + 1"
    unfolding nq day_ms_def using m by (simp add: m_def[symmetric] q_def[symmetric])
qed

lemma daily_job_fields:
  "jobId (daily_job now p) = ''daily-checkup-'' @ p"
  "name (daily_job now p) = ''daily-health-checkup''"
  "tag (daily_job now p) = Some ''daily''"
  "phoneNumber (daily_job now p) = p"
  "repeat_every (daily_job now p) = Some day_ms"
  by (simp_all add: daily_job_def Let_def empty_data_def day_ms_def)

lemma daily_job_delay:
  "\<exists>d. delay (daily_job now p) = Some d \<and> checkTime (daily_job now p) = Some (now + d)
       \<and> 0 < d \<and> d \<le> day_ms \<and> (now + d) mod day_ms = 9 * 60 * 60 * 1000
       \<and> (if now mod day_ms < 9 * 60 * 60 * 1000
           then (now + d) div day_ms = now div day_ms
           else (now + d) div day_ms = now div day_ms + 1)"
proof -
  define n where "n = (if now \<ge> setHours9 now then setHours9 now + day_ms else setHours9 now)"
  have d: "delay (daily_job now p) = Some (n - now)" "checkTime (daily_job now p) = Some n"
    by (simp_all add: daily_job_def Let_def empty_data_def n_def)
  have "now + (n - now) = n" by simp
  then show ?thesis
    using d next9AM_props[of now, folded n_def] by (intro exI[of _ "n - now"]) simp
qed

lemma handler_no_enqueue:
  "cron (snd (processDailyRoutineCheckup e j w)) = cron w"
  by (simp add: processDailyRoutineCheckup_def and_then_def twilio_send_def prisma_log_def)

lemma find_append_last:
  "i \<notin> jobId ` set js \<Longrightarrow> jobId j = i \<Longrightarrow> find (\<lambda>k. jobId k = i) (js @ [j]) = Some j"
  by (induction js) auto

text \<open>
  Claim C8. With the job store reachable, \<open>scheduleDailyCheckup\<close> at time \<open>now\<close>
  leaves exactly one new job under the patient's daily id. Its delay \<open>d\<close> is positive
  and at most 24 hours, \<open>now + d\<close> is 09:00 local, on the same day when 09:00 has not
  yet been reached at \<open>now\<close> and on the next day otherwise, and the job carries the
  repeat option of 24 hours. A fire of that job hands it to the daily handler and leaves
  the pending jobs as they are: the job stays for its next period and the handler
  enqueues nothing, whatever the collaborators do.
\<close>

theorem daily_first_fire_and_repeat:
  assumes "cron_get_ok e" and "cron_remove_ok e" and "cron_add_ok e"
    and "distinct (map jobId (cron w))"
  shows "\<exists>j w'. scheduleDailyCheckup e now p w = (Inr (), w')
      \<and> cron w' = cron (cancel_tag e p ''daily'' w) @ [j]
      \<and> jobId j = ''daily-checkup-'' @ p \<and> jobId j \<notin> job_ids (cancel_tag e p ''daily'' w)
      \<and> name j = ''daily-health-checkup'' \<and> tag j = Some ''daily'' \<and> phoneNumber j = p
      \<and> repeat_every j = Some day_ms
      \<and> (\<exists>d. delay j = Some d \<and> checkTime j = Some (now + d)
            \<and> 0 < d \<and> d \<le> day_ms \<and> (now + d) mod day_ms = 9 * 60 * 60 * 1000
            \<and> (if now mod day_ms < 9 * 60 * 60 * 1000
                then (now + d) div day_ms = now div day_ms
                else (now + d) div day_ms = now div day_ms + 1))
      \<and> (\<forall>e' t'. \<exists>r. fire e' t' (''daily-checkup-'' @ p) w' = Some r \<and> cron (snd r) = cron w')
      \<and> (\<forall>e' k w''. cron (snd (processDailyRoutineCheckup e' k w'')) = cron w'')"
proof -
  define w1 where "w1 = cancel_tag e p ''daily'' w"
  define j where "j = daily_job now p"
  define w' where "w' = w1\<lparr>cron := cron w1 @ [j]\<rparr>"
  have abs: "''daily-checkup-'' @ p \<notin> job_ids w1"
    using cancel_tag_absent[OF assms(1,2,4), of p "''daily''"]
    by (simp add: w1_def main_job_id_def)
  have id: "jobId j = ''daily-checkup-'' @ p" by (simp add: j_def daily_job_fields)
  have res: "scheduleDailyCheckup e now p w = (Inr (), w')"
    using abs id assms(3)
    by (simp add: scheduleDailyCheckup_unfold cron_add_fresh w1_def[symmetric] j_def[symmetric] w'_def)
  have fnd: "find (\<lambda>k. jobId k = ''daily-checkup-'' @ p) (cron w') = Some j"
    using abs id by (simp add: w'_def job_ids_def find_append_last)
  have fire: "\<forall>e' t'. \<exists>r. fire e' t' (''daily-checkup-'' @ p) w' = Some r \<and> cron (snd r) = cron w'"
    using fnd
    by (simp add: fire_def healthCronWorker_def j_def daily_job_fields handler_no_enqueue)
  show ?thesis
    apply (rule exI[of _ j], rule exI[of _ w'])
    using res abs id fire daily_job_delay[of now p]
    by (simp add: w'_def w1_def j_def daily_job_fields handler_no_enqueue)
qed

theorem daily_first_fire_and_repeat_witness:
  "cron_get_ok env_up \<and> cron_remove_ok env_up \<and> cron_add_ok env_up
   \<and> distinct (map jobId (cron world_empty))
   \<and> (\<exists>j w'. scheduleDailyCheckup env_up 291900000 ''+15550001'' world_empty = (Inr (), w')
         \<and> cron w' = cron (cancel_tag env_up ''+15550001'' ''daily'' world_empty) @ [j]
         \<and> repeat_every j = Some day_ms
         \<and> (\<exists>d. delay j = Some d \<and> (291900000 + d) mod day_ms = 32400000
               \<and> (291900000 + d) div day_ms = 4))"
proof -
  have h: "cron_get_ok env_up" "cron_remove_ok env_up" "cron_add_ok env_up"
    "distinct (map jobId (cron world_empty))"
    by (simp_all add: env_up_def world_empty_def)
  have c: "\<not> (291900000::int) mod day_ms < 9 * 60 * 60 * 1000" "(291900000::int) div day_ms + 1 = 4"
    by (simp_all add: day_ms_def)
  from daily_first_fire_and_repeat[OF h, of 291900000 "''+15550001''"]
  obtain j w' d where
    "scheduleDailyCheckup env_up 291900000 ''+15550001'' world_empty = (Inr (), w')"
    "cron w' = cron (cancel_tag env_up ''+15550001'' ''daily'' world_empty) @ [j]"
    "repeat_every j = Some day_ms" "delay j = Some d"
    "(291900000 + d) mod day_ms = 9 * 60 * 60 * 1000"
    "(if (291900000::int) mod day_ms < 9 * 60 * 60 * 1000
      then (291900000 + d) div day_ms = 291900000 div day_ms
      else (291900000 + d) div day_ms = 291900000 div day_ms + 1)"
    by blast
  then show ?thesis using h c by (intro conjI exI[of _ j] exI[of _ w'] exI[of _ d]) simp_all
qed

lemma twilio_send_cases:
  "twilio_send e p m w = (if twilio_ok e then (Inr (), w\<lparr>sms := sms w @ [(p, m)]\<rparr>)
                         else (Inl TwilioError, w))"
  by (simp add: twilio_send_def)






section \<open>Bounded AI chain: properties\<close>














section \<open>At most one pending job per identity\<close>

lemma inv_cong: "cron w = cron w' \<Longrightarrow> inv w = inv w'"
  by (simp add: inv_def)

lemma inv_removes:
  assumes "inv w" and "removes w w'"
  shows "inv w'"
proof -
  have "distinct (map jobId (cron w'))" using removes_distinct[OF assms(2)] assms(1) by (simp add: inv_def)
  moreover have "\<forall>j \<in> set (cron w'). wf_job j"
    using removes_set[OF assms(2)] assms(1) unfolding inv_def by blast
  ultimately show ?thesis by (simp add: inv_def)
qed

lemma inv_add:
  assumes "inv w" and "wf_job j" and "jobId j \<notin> job_ids w"
  shows "inv (snd (cron_add e j w))"
proof (cases "cron_add_ok e")
  case True
  then have "cron (snd (cron_add e j w)) = cron w @ [j]"
    using cron_add_fresh[OF assms(3), of e] by simp
  then show ?thesis using assms unfolding inv_def job_ids_def by simp
next
  case False
  then show ?thesis using assms(1) by (simp add: cron_add_down)
qed

lemma main_job_id_chain:
  "chain_tag t \<Longrightarrow> main_job_id p t = ''recurring-monitor-'' @ p @ ''-'' @ t"
  by (simp add: main_job_id_def chain_tag_def)

lemma recurring_job_wf:
  "chain_tag (tag_or_symptom t) \<Longrightarrow> wf_job (recurring_job now p s r t)"
  by (simp add: wf_job_def recurring_job_def Let_def empty_data_def tag_or_symptom_def)

lemma recurring_job_id:
  "jobId (recurring_job now p s r t) = ''recurring-monitor-'' @ p @ ''-'' @ tag_or_symptom t"
  by (simp add: recurring_job_def Let_def empty_data_def tag_or_symptom_def)

lemma inv_cancel: "inv w \<Longrightarrow> inv (snd (cancelHealthCheckups e p t w))"
  using inv_removes cancelHealthCheckups_removes by blast

lemma inv_scheduleHealthCheckup:
  assumes "inv w" and "store_ok e" and "chain_tag (tag_or_symptom t)"
  shows "inv (snd (scheduleHealthCheckup e now p s r t w))"
proof -
  let ?T = "tag_or_symptom t"
  have na: "?T \<noteq> ''all''" using assms(3) by (simp add: chain_tag_def)
  have c: "snd (cancelHealthCheckups e p (Some ?T) w) = cancel_tag e p ?T w"
    using na by (simp add: cancelHealthCheckups_tag)
  have i1: "inv (cancel_tag e p ?T w)" using inv_removes[OF assms(1) cancel_tag_removes] .
  have "main_job_id p ?T \<notin> job_ids (cancel_tag e p ?T w)"
    using assms(1,2) by (intro cancel_tag_absent) (simp_all add: store_ok_def inv_def)
  then have fresh: "jobId (recurring_job now p s r t) \<notin> job_ids (cancel_tag e p ?T w)"
    by (simp add: recurring_job_id main_job_id_chain[OF assms(3)])
  show ?thesis
    unfolding scheduleHealthCheckup_unfold c
    by (rule inv_add[OF i1 recurring_job_wf[OF assms(3)] fresh])
qed

lemma daily_job_wf: "wf_job (daily_job now p)"
  by (simp add: wf_job_def daily_job_fields)

lemma inv_scheduleDailyCheckup:
  assumes "inv w" and "store_ok e"
  shows "inv (snd (scheduleDailyCheckup e now p w))"
proof -
  have i1: "inv (cancel_tag e p ''daily'' w)" using inv_removes[OF assms(1) cancel_tag_removes] .
  have "main_job_id p ''daily'' \<notin> job_ids (cancel_tag e p ''daily'' w)"
    using assms by (intro cancel_tag_absent) (simp_all add: store_ok_def inv_def)
  then have fresh: "jobId (daily_job now p) \<notin> job_ids (cancel_tag e p ''daily'' w)"
    by (simp add: daily_job_fields main_job_id_def)
  show ?thesis
    unfolding scheduleDailyCheckup_unfold by (rule inv_add[OF i1 daily_job_wf fresh])
qed

lemma weather_job_wf: "wf_job (weather_job p ws pd m n st)"
  by (simp add: wf_job_def weather_job_def empty_data_def)

lemma weather_job_id: "jobId (weather_job p ws pd m n st) = ''weather-alert-'' @ p"
  by (simp add: weather_job_def empty_data_def)

lemma scheduleWeatherAlertCheckin_unfold:
  "scheduleWeatherAlertCheckin e now p ws pd w =
     (if urgency ws = ''emergency'' \<or> urgency ws = ''high''
      then cron_add e (weather_job p ws pd (weatherInterval (urgency ws)) 1 (Some now))
             (cancel_tag e p ''weather-alert'' w)
      else (Inr (), cancel_tag e p ''weather-alert'' w))"
  by (simp add: scheduleWeatherAlertCheckin_def weather_job_def Let_def and_then_def
        cancelHealthCheckups_tag)

lemma inv_scheduleWeatherAlertCheckin:
  assumes "inv w" and "store_ok e"
  shows "inv (snd (scheduleWeatherAlertCheckin e now p ws pd w))"
proof -
  have i1: "inv (cancel_tag e p ''weather-alert'' w)"
    using inv_removes[OF assms(1) cancel_tag_removes] .
  have "main_job_id p ''weather-alert'' \<notin> job_ids (cancel_tag e p ''weather-alert'' w)"
    using assms by (intro cancel_tag_absent) (simp_all add: store_ok_def inv_def)
  then have fresh: "\<And>m n st. jobId (weather_job p ws pd m n st) \<notin> job_ids (cancel_tag e p ''weather-alert'' w)"
    by (simp add: weather_job_id main_job_id_def)
  show ?thesis
    unfolding scheduleWeatherAlertCheckin_unfold
    using inv_add[OF i1 weather_job_wf fresh] i1 by simp
qed

lemma inv_updateMonitoringFrequency:
  assumes "inv w" and "store_ok e"
  shows "inv (snd (updateMonitoringFrequency e now p l t w))"
proof -
  let ?T = "tag_or_symptom t"
  have i1: "inv (snd (cancelHealthCheckups e p (Some ?T) w))" using inv_cancel[OF assms(1)] .
  have ct: "chain_tag (tag_or_symptom (Some ''symptom''))"
    by (simp add: chain_tag_def tag_or_symptom_def)
  have eq: "snd (updateMonitoringFrequency e now p l t w) =
      (if ?T = ''symptom''
       then snd (scheduleHealthCheckup e now p (Some ''updated'') (Some l) (Some ''symptom'')
                  (snd (cancelHealthCheckups e p (Some ?T) w)))
       else snd (cancelHealthCheckups e p (Some ?T) w))"
    by (simp add: updateMonitoringFrequency_def Let_def and_then_cancel tag_or_symptom_def)
  have i2: "inv (snd (scheduleHealthCheckup e now p (Some ''updated'') (Some l) (Some ''symptom'')
                  (snd (cancelHealthCheckups e p (Some ?T) w))))"
    by (rule inv_scheduleHealthCheckup[OF i1 assms(2) ct])
  show ?thesis
    unfolding eq using i1 i2 by (cases "?T = ''symptom''") simp_all
qed

lemma inv_recurring_handler:
  assumes "inv w" and "store_ok e" and "chain_tag (tag_or_symptom (tag j))"
  shows "inv (snd (processRecurringHealthMonitor e now j w))"
proof -
  define m where "m =
     (if riskLevel j = Some ''emergency'' then EmergencyMonitoring (checkNumber j)
      else if riskLevel j = Some ''critical'' then CriticalCheck (checkNumber j)
      else if riskLevel j = Some ''high'' then HighRiskCheck (checkNumber j) (symptom j)
      else if riskLevel j = Some ''medium'' then HealthCheck (checkNumber j)
      else RoutineCheck (checkNumber j))"
  define w1 where "w1 = w\<lparr>sms := sms w @ [(phoneNumber j, m)]\<rparr>"
  have eq: "processRecurringHealthMonitor e now j w =
      and_then (twilio_send e (phoneNumber j) m w)
        (\<lambda>w1. and_then (prisma_log e w1)
           (\<lambda>w2. scheduleHealthCheckup e now (phoneNumber j) (symptom j) (riskLevel j) (tag j) w2))"
    by (simp add: processRecurringHealthMonitor_def Let_def m_def)
  have i1: "inv w1" using assms(1) inv_cong[of w1 w] by (simp add: w1_def)
  consider (sent) "twilio_ok e" "prisma_ok e" | (notw) "\<not> twilio_ok e" | (nodb) "twilio_ok e" "\<not> prisma_ok e"
    by blast
  then show ?thesis
  proof cases
    case sent
    then have "processRecurringHealthMonitor e now j w =
        scheduleHealthCheckup e now (phoneNumber j) (symptom j) (riskLevel j) (tag j) w1"
      unfolding eq by (simp add: and_then_def twilio_send_def prisma_log_def w1_def)
    then show ?thesis using inv_scheduleHealthCheckup[OF i1 assms(2,3)] by simp
  next
    case notw
    then have "processRecurringHealthMonitor e now j w = (Inl TwilioError, w)"
      unfolding eq by (simp add: and_then_def twilio_send_def)
    then show ?thesis using assms(1) by simp
  next
    case nodb
    then have "processRecurringHealthMonitor e now j w = (Inl DbError, w1)"
      unfolding eq by (simp add: and_then_def twilio_send_def prisma_log_def w1_def)
    then show ?thesis using i1 by simp
  qed
qed

lemma weather_handler_result:
  obtains (same) w2 where "cron w2 = cron w" "snd (processWeatherAlertCheckin e j w) = w2"
  | (added) w2 k where "cron w2 = cron w" "wf_job k" "jobId k = ''weather-alert-'' @ phoneNumber j"
      "snd (processWeatherAlertCheckin e j w) = snd (cron_add e k w2)"
proof (cases "job_waveStatus j")
  case None
  then have "snd (processWeatherAlertCheckin e j w) = w"
    by (simp add: processWeatherAlertCheckin_def)
  then show ?thesis using same[of w] by simp
next
  case ws: (Some ws)
  show ?thesis
  proof (cases "patientData j")
    case None
    then have "snd (processWeatherAlertCheckin e j w) = w"
      using ws by (simp add: processWeatherAlertCheckin_def)
    then show ?thesis using same[of w] by simp
  next
    case pd: (Some pd)
    define m where "m = (if age pd \<ge> 65 then SeniorCheckin else GeneralCheckin)"
    define w2 where "w2 = w\<lparr>wa := wa w @ [\<lparr>wa_to = phoneNumber j, wa_message = m, wa_delay = None\<rparr>]\<rparr>"
    define n where "n = (case checkNumber j of None \<Rightarrow> 1 | Some n \<Rightarrow> if n = 0 then 1 else n) + 1"
    define k where "k = weather_job (phoneNumber j) ws pd (intervalMinutes j) n (startTime j)"
    define rest where "rest = (\<lambda>w2. if urgency ws = ''emergency'' \<or> urgency ws = ''high''
         then cron_add e k w2 else (Inr (), w2))"
    have eq: "processWeatherAlertCheckin e j w =
        and_then (if age pd \<ge> 65 then detectHeatWave e w else (Inr (), w))
          (\<lambda>w1. and_then (wa_add e (phoneNumber j) m None w1) rest)"
      unfolding processWeatherAlertCheckin_def ws pd m_def rest_def k_def n_def Let_def weather_job_def
      by simp
    have c2: "cron w2 = cron w" by (simp add: w2_def)
    have kw: "wf_job k" "jobId k = ''weather-alert-'' @ phoneNumber j"
      by (simp_all add: k_def weather_job_wf weather_job_id)
    consider (ok) "processWeatherAlertCheckin e j w = rest w2"
      | (err) err where "processWeatherAlertCheckin e j w = (Inl err, w)"
      unfolding eq
      by (cases "wa_add_ok e"; cases "weather_ok e"; cases "age pd \<ge> 65")
         (simp_all add: and_then_def detectHeatWave_def wa_add_def w2_def)
    then show ?thesis
    proof cases
      case ok
      show ?thesis
      proof (cases "urgency ws = ''emergency'' \<or> urgency ws = ''high''")
        case True
        then have "snd (processWeatherAlertCheckin e j w) = snd (cron_add e k w2)"
          using ok by (simp add: rest_def)
        then show ?thesis using added[OF c2 kw] by simp
      next
        case False
        then have "snd (processWeatherAlertCheckin e j w) = w2" using ok by (simp add: rest_def)
        then show ?thesis using same[OF c2] by simp
      qed
    next
      case (err err)
      then have "snd (processWeatherAlertCheckin e j w) = w" by simp
      then show ?thesis using same[of w] by simp
    qed
  qed
qed

lemma inv_weather_handler:
  assumes "inv w" and "''weather-alert-'' @ phoneNumber j \<notin> job_ids w"
  shows "inv (snd (processWeatherAlertCheckin e j w))"
proof (cases rule: weather_handler_result[of w e j])
  case (same w2)
  then show ?thesis using assms(1) inv_cong[of w2 w] by simp
next
  case (added w2 k)
  have i2: "inv w2" using assms(1) inv_cong[OF added(1)] by simp
  have f: "jobId k \<notin> job_ids w2" using assms(2) added(1,3) by (simp add: job_ids_def)
  show ?thesis using inv_add[OF i2 added(2) f] added(4) by simp
qed

lemma inv_fire:
  assumes "inv w" and "store_ok e" and "fire e now jid w = Some r"
  shows "inv (snd r)"
proof -
  from assms(3) obtain j where f: "find (\<lambda>j. jobId j = jid) (cron w) = Some j"
    by (auto simp: fire_def split: option.splits)
  have j: "jobId j = jid" "j \<in> set (cron w)" using find_jobId[OF f] by simp_all
  have wf: "wf_job j" using assms(1) j(2) by (simp add: inv_def)
  define w0 where "w0 = (if repeat_every j = None then w\<lparr>cron := remove_job jid (cron w)\<rparr> else w)"
  have r: "r = healthCronWorker e now j w0" using assms(3) f by (simp add: fire_def w0_def)
  have "removes w w0" by (simp add: w0_def removes_def subseq_remove_job)
  then have i0: "inv w0" using inv_removes[OF assms(1)] by simp
  consider (rec) "name j = ''recurring-health-monitor''" "repeat_every j = None"
      "chain_tag (tag_or_symptom (tag j))"
    | (daily) "name j = ''daily-health-checkup''"
    | (weather) "name j = ''weather-alert-checkin''" "repeat_every j = None"
      "jobId j = ''weather-alert-'' @ phoneNumber j"
    using wf unfolding wf_job_def by (cases "tag j") (auto simp: tag_or_symptom_def)
  then show ?thesis
  proof cases
    case rec
    then have "r = processRecurringHealthMonitor e now j w0"
      unfolding r by (simp add: healthCronWorker_def)
    then show ?thesis using inv_recurring_handler[OF i0 assms(2) rec(3)] by simp
  next
    case daily
    then have "r = processDailyRoutineCheckup e j w0"
      unfolding r by (simp add: healthCronWorker_def)
    then have "cron (snd r) = cron w0" by (simp add: handler_no_enqueue)
    then show ?thesis using i0 inv_cong by blast
  next
    case weather
    have "jid \<notin> jobId ` set (remove_job jid (cron w))"
      using assms(1) by (intro remove_job_absent) (simp add: inv_def)
    then have "''weather-alert-'' @ phoneNumber j \<notin> job_ids w0"
      using weather(2,3) j(1) by (simp add: w0_def job_ids_def)
    moreover have "r = processWeatherAlertCheckin e j w0"
      unfolding r using weather(1) by (simp add: healthCronWorker_def)
    ultimately show ?thesis using inv_weather_handler[OF i0] by simp
  qed
qed

lemma inv_run_op:
  assumes "inv w" and "store_ok e" and "op_ok operation"
  shows "inv (run_op e now operation w)"
proof (cases operation)
  case (Start p s r t)
  then show ?thesis
    using assms inv_scheduleHealthCheckup[OF assms(1,2), of t] by (simp add: run_op_def op_ok_def)
next
  case (StartDaily p)
  then show ?thesis using inv_scheduleDailyCheckup[OF assms(1,2)] by (simp add: run_op_def)
next
  case (StartWeather p ws pd)
  then show ?thesis using inv_scheduleWeatherAlertCheckin[OF assms(1,2)] by (simp add: run_op_def)
next
  case (Cancel p t)
  then show ?thesis using inv_cancel[OF assms(1)] by (simp add: run_op_def)
next
  case (Update p l t)
  then show ?thesis using inv_updateMonitoringFrequency[OF assms(1,2)] by (simp add: run_op_def)
next
  case (Fire jid)
  show ?thesis
  proof (cases "fire e now jid w")
    case None
    then show ?thesis using Fire assms(1) by (simp add: run_op_def)
  next
    case (Some r)
    then show ?thesis using Fire inv_fire[OF assms(1,2) Some] by (simp add: run_op_def)
  qed
qed

lemma inv_run:
  "inv w \<Longrightarrow> \<forall>x \<in> set ops. store_ok (fst x) \<and> op_ok (snd (snd x)) \<Longrightarrow> inv (run ops w)"
proof (induction ops arbitrary: w)
  case Nil
  then show ?case by simp
next
  case (Cons x ops)
  obtain e now operation where x: "x = (e, now, operation)" by (cases x)
  have "inv (run_op e now operation w)"
    using Cons.prems x by (intro inv_run_op) simp_all
  then show ?case using Cons.IH Cons.prems(2) x by simp
qed

lemma filter_at_most_one:
  "distinct (map f xs) \<Longrightarrow> \<forall>x \<in> set xs. P x \<longrightarrow> f x = c \<Longrightarrow> length (filter P xs) \<le> 1"
proof (induction xs)
  case Nil
  then show ?case by simp
next
  case (Cons x xs)
  show ?case
  proof (cases "P x")
    case True
    then have "f x = c" using Cons.prems(2) by simp
    then have "\<forall>y \<in> set xs. \<not> P y" using Cons.prems by (metis distinct.simps(2) imageI list.set_intros(2) list.simps(9) list.set_map)
    then have "filter P xs = []" by (simp add: filter_empty_conv)
    then show ?thesis using True by simp
  next
    case False
    then show ?thesis using Cons by simp
  qed
qed

lemma wf_job_identity:
  assumes "wf_job j" and "phoneNumber j = p" and "tag j = Some t"
  shows "jobId j = main_job_id p t"
  using assms unfolding wf_job_def main_job_id_def chain_tag_def by auto

lemma inv_at_most_one:
  assumes "inv w"
  shows "length (pending_for p t w) \<le> 1"
  unfolding pending_for_def
proof (rule filter_at_most_one[where f = jobId and c = "main_job_id p t"])
  show "distinct (map jobId (cron w))" using assms by (simp add: inv_def)
  show "\<forall>x \<in> set (cron w). phoneNumber x = p \<and> tag x = Some t \<longrightarrow> jobId x = main_job_id p t"
    using assms wf_job_identity unfolding inv_def by blast
qed

text \<open>
  Claim C1 (as amended). Start from a store with no pending jobs and run any sequence of
  the operations of queue.js one at a time: starts of the symptom track (or of a custom
  tag other than daily, weather-alert and all), of the daily track and of the weather
  track, cancels, frequency updates (escalate and de-escalate) and fires, each with
  collaborators of its own that may fail, provided the store answers \<open>getJob\<close> and
  \<open>remove\<close>. Then at most one pending job exists for every patient and track. The
  proof goes through the invariant \<open>inv\<close>; each start removes the job filed under its
  id before it enqueues (\<open>cancel_tag_absent\<close>).
\<close>

theorem at_most_one_pending_job:
  assumes "\<forall>x \<in> set ops. store_ok (fst x) \<and> op_ok (snd (snd x))"
  shows "length (pending_for p t (run ops world_empty)) \<le> 1"
proof -
  have "inv world_empty" by (simp add: inv_def world_empty_def)
  then have "inv (run ops world_empty)" using assms by (rule inv_run)
  then show ?thesis by (rule inv_at_most_one)
qed

theorem at_most_one_pending_job_witness:
  "list_all store_ok (map fst example_ops)
   \<and> list_all op_ok (map (snd \<circ> snd) example_ops)
   \<and> length (pending_for ''+15550001'' ''symptom'' (run example_ops world_empty)) \<le> 1
   \<and> map checkNumber (pending_for ''+15550001'' ''symptom'' (run example_ops world_empty)) = [Some 1]"
proof -
  have h: "\<forall>x \<in> set example_ops. store_ok (fst x) \<and> op_ok (snd (snd x))"
    by (simp add: example_ops_def store_ok_def op_ok_def env_up_def env_add_down_def
          chain_tag_def tag_or_symptom_def)
  then have l: "list_all store_ok (map fst example_ops)"
    "list_all op_ok (map (snd \<circ> snd) example_ops)"
    by (simp_all add: list_all_iff)
  have c: "map checkNumber (pending_for ''+15550001'' ''symptom'' (run example_ops world_empty)) = [Some 1]"
    by code_simp
  show ?thesis
    using l c at_most_one_pending_job[OF h, of "''+15550001''" "''symptom''"] by simp
qed

text \<open>
  Claim C1 as stated fails for the AI monitoring scheduler, which the claim names: one
  call of \<open>scheduleAISymptomMonitoring\<close> on an empty store leaves four pending jobs
  of the same patient and the same purpose, each under an id of its own, enqueued one
  after the other without a cancel in between.
\<close>

theorem ai_chain_pending_counterexample:
  "map phoneNumber (cron (snd (scheduleAISymptomMonitoring env_up 1700 ''+15550001''
        example_patient example_analysis world_empty)))
     = [''+15550001'', ''+15550001'', ''+15550001'', ''+15550001'']
   \<and> map name (cron (snd (scheduleAISymptomMonitoring env_up 1700 ''+15550001''
        example_patient example_analysis world_empty)))
     = [''ai_symptom_monitoring'', ''ai_symptom_monitoring'', ''ai_symptom_monitoring'',
        ''ai_symptom_monitoring'']
   \<and> map jobId (cron (snd (scheduleAISymptomMonitoring env_up 1700 ''+15550001''
        example_patient example_analysis world_empty)))
     = [''ai-symptom-+15550001-1700-1'', ''ai-symptom-+15550001-1700-2'',
        ''ai-symptom-+15550001-1700-3'', ''ai-symptom-+15550001-1700-4'']"
  by code_simp

section \<open>Poll replies: properties\<close>



lemma pending_for_cong: "cron w = cron w' \<Longrightarrow> pending_for p t w = pending_for p t w'"
  by (simp add: pending_for_def)












lemma monitoringAction_Emergency_iff:
  "(monitoringAction aiAnalysis r = Emergency) =
     ((case aiAnalysis of None \<Rightarrow> False | Some a \<Rightarrow> rec_emergency a \<or> emergencyAlert a)
      \<or> (r = ''emergency_help''
          \<and> (case aiAnalysis of None \<Rightarrow> True | Some a \<Rightarrow> \<not> rec_escalate a)))"
  by (cases aiAnalysis) (simp_all add: monitoringAction_def)





end
